theory Spec2Isabelle
  imports Complex_Main "HOL-Library.Word" "HOL-Library.Sublist" "HOL-Library.AList"
begin

section \<open>JavaScript strings and buffers\<close>

text \<open>
  A JavaScript string is the list of its UTF-16 code units; a Node \<open>Buffer\<close> is a list of
  bytes. String literals of the source are written with \<open>js\<close>, which maps each ASCII
  character to its code unit.
\<close>

type_synonym jschar = "16 word"
type_synonym jsstring = "jschar list"
type_synonym byte = "8 word"
type_synonym buffer = "byte list"

definition js :: "string \<Rightarrow> jsstring" where
  "js s = map of_char s"

text \<open>The two quote characters, the apostrophe and the double quote.\<close>

definition SQ :: jschar where
  "SQ = 0x27"

definition DQ :: jschar where
  "DQ = 0x22"

text \<open>\<open>String.prototype.includes\<close>: the argument occurs as a contiguous run.\<close>

fun includes_str :: "jsstring \<Rightarrow> jsstring \<Rightarrow> bool" where
  "includes_str [] sub = (sub = [])"
| "includes_str (c # cs) sub = (prefix sub (c # cs) \<or> includes_str cs sub)"

text \<open>\<open>String.prototype.endsWith\<close>.\<close>

definition endsWith :: "jsstring \<Rightarrow> jsstring \<Rightarrow> bool" where
  "endsWith s t = suffix t s"

text \<open>
  \<open>String.prototype.split\<close> with a separator of one code unit: the pieces between the
  separators, in order; there is always at least one piece.
\<close>

fun split :: "jsstring \<Rightarrow> jschar \<Rightarrow> jsstring list" where
  "split [] sep = [[]]"
| "split (c # cs) sep =
     (if c = sep then [] # split cs sep
      else (case split cs sep of
              [] \<Rightarrow> [[c]]
            | p # ps \<Rightarrow> (c # p) # ps))"

text \<open>
  \<open>toLowerCase\<close> and \<open>toUpperCase\<close> on the ASCII letters. Code units outside ASCII are
  left as they are. The source uses \<open>toLowerCase\<close> only to look a key up in
  \<open>FRAMEWORKS\<close>; the only ASCII letters that come out of the lower-case form of a
  character outside ASCII are \<open>k\<close> and \<open>i\<close>, which are in no key that a lower-case name
  can be, so the lookup resolves as in the source. \<open>toUpperCase\<close> is only applied to
  framework names that passed this lookup, which are ASCII.
\<close>

definition lower_char :: "jschar \<Rightarrow> jschar" where
  "lower_char c = (if 0x41 \<le> c \<and> c \<le> 0x5A then c + 0x20 else c)"

definition upper_char :: "jschar \<Rightarrow> jschar" where
  "upper_char c = (if 0x61 \<le> c \<and> c \<le> 0x7A then c - 0x20 else c)"

definition toLowerCase :: "jsstring \<Rightarrow> jsstring" where
  "toLowerCase s = map lower_char s"

definition toUpperCase :: "jsstring \<Rightarrow> jsstring" where
  "toUpperCase s = map upper_char s"

section \<open>Regular expressions of the source\<close>

text \<open>
  The regular expressions of \<open>server.js\<close> have no anchors at the start, no look-behind
  and no back-references, so whether one matches at a position depends on the text from
  that position on only. A matcher takes that text and returns the length of the match
  that starts there, if there is one. The source's patterns are built from literals,
  character classes, a greedy repetition of a class and the lazy \<open>.*?\<close>; in each of them
  the class that is repeated greedily shares no character with what follows it, so the
  backtracking matcher of JavaScript finds exactly the match computed here.
\<close>

type_synonym matcher = "jsstring \<Rightarrow> nat option"

text \<open>The classes: white space, word characters, the quotes, and line terminators
  (which the dot does not match).\<close>

definition is_space :: "jschar \<Rightarrow> bool" where
  "is_space c = ((0x09 \<le> c \<and> c \<le> 0x0D) \<or> c = 0x20 \<or> c = 0xA0 \<or> c = 0x1680
     \<or> (0x2000 \<le> c \<and> c \<le> 0x200A) \<or> c = 0x2028 \<or> c = 0x2029 \<or> c = 0x202F
     \<or> c = 0x205F \<or> c = 0x3000 \<or> c = 0xFEFF)"

definition is_word :: "jschar \<Rightarrow> bool" where
  "is_word c = ((0x41 \<le> c \<and> c \<le> 0x5A) \<or> (0x61 \<le> c \<and> c \<le> 0x7A)
     \<or> (0x30 \<le> c \<and> c \<le> 0x39) \<or> c = 0x5F)"

definition is_quote :: "jschar \<Rightarrow> bool" where
  "is_quote c = (c = SQ \<or> c = DQ)"

definition is_line_terminator :: "jschar \<Rightarrow> bool" where
  "is_line_terminator c = (c = 0x0A \<or> c = 0x0D \<or> c = 0x2028 \<or> c = 0x2029)"

text \<open>A literal.\<close>

definition lit :: "jsstring \<Rightarrow> matcher" where
  "lit t s = (if prefix t s then Some (length t) else None)"

text \<open>One character of a class.\<close>

definition cls :: "(jschar \<Rightarrow> bool) \<Rightarrow> matcher" where
  "cls P s = (case s of [] \<Rightarrow> None | c # _ \<Rightarrow> if P c then Some 1 else None)"

text \<open>A class repeated greedily, at least \<open>k\<close> times.\<close>

definition many :: "nat \<Rightarrow> (jschar \<Rightarrow> bool) \<Rightarrow> matcher" where
  "many k P s = (let n = length (takeWhile P s) in if k \<le> n then Some n else None)"

text \<open>One pattern after another.\<close>

definition seq :: "matcher \<Rightarrow> matcher \<Rightarrow> matcher" where
  "seq m1 m2 s =
     (case m1 s of
        None \<Rightarrow> None
      | Some n \<Rightarrow> (case m2 (drop n s) of None \<Rightarrow> None | Some k \<Rightarrow> Some (n + k)))"

text \<open>
  The lazy \<open>.*?\<close> followed by the rest of the pattern: the rest is tried first, and only
  when it fails the dot takes one more character, which must not be a line terminator.
\<close>

fun dot_lazy :: "matcher \<Rightarrow> matcher" where
  "dot_lazy m [] = m []"
| "dot_lazy m (c # cs) =
     (case m (c # cs) of
        Some n \<Rightarrow> Some n
      | None \<Rightarrow>
          if is_line_terminator c then None
          else (case dot_lazy m cs of None \<Rightarrow> None | Some n \<Rightarrow> Some (Suc n)))"

text \<open>
  \<open>String.prototype.replace\<close> with a regular expression without the \<open>g\<close> flag: the
  leftmost match is replaced, the text is unchanged when there is none.
\<close>

fun replace :: "matcher \<Rightarrow> jsstring \<Rightarrow> jsstring \<Rightarrow> jsstring" where
  "replace m r [] = (case m [] of None \<Rightarrow> [] | Some n \<Rightarrow> r)"
| "replace m r (c # cs) =
     (case m (c # cs) of
        None \<Rightarrow> c # replace m r cs
      | Some n \<Rightarrow> r @ drop n (c # cs))"

text \<open>
  With the \<open>g\<close> flag every match is replaced, from left to right; the search goes on
  after the end of each match (one character further after an empty match), and the
  replacement is not searched again.
\<close>

function replace_all :: "matcher \<Rightarrow> jsstring \<Rightarrow> jsstring \<Rightarrow> jsstring" where
  "replace_all m r [] = (case m [] of None \<Rightarrow> [] | Some n \<Rightarrow> r)"
| "replace_all m r (c # cs) =
     (case m (c # cs) of
        None \<Rightarrow> c # replace_all m r cs
      | Some 0 \<Rightarrow> r @ c # replace_all m r cs
      | Some (Suc n) \<Rightarrow> r @ replace_all m r (drop n cs))"
  by pat_completeness auto
termination
  by (relation "measure (\<lambda>(m, r, s). length s)") auto

text \<open>\<open>RegExp.prototype.test\<close>: there is a match at some position.\<close>

fun test :: "matcher \<Rightarrow> jsstring \<Rightarrow> bool" where
  "test m [] = (m [] \<noteq> None)"
| "test m (c # cs) = (m (c # cs) \<noteq> None \<or> test m cs)"

section \<open>Source normalization\<close>

text \<open>
  The patterns of \<open>prepareAngularCode\<close>, in the order of the source:
  \<^verbatim>\<open>/selector:\s*['"].*?['"]/\<close>, \<^verbatim>\<open>/export class \w+/\<close>, \<^verbatim>\<open>/@Component\({/\<close>,
  \<^verbatim>\<open>/templateUrl:.*?,/g\<close>, \<^verbatim>\<open>/styleUrls:.*?\],/g\<close> and \<^verbatim>\<open>/styleUrl:.*?,/g\<close>.
\<close>

definition selector_re :: matcher where
  "selector_re =
     seq (lit (js ''selector:'')) (seq (many 0 is_space) (seq (cls is_quote) (dot_lazy (cls is_quote))))"

definition class_re :: matcher where
  "class_re = seq (lit (js ''export class '')) (many 1 is_word)"

definition component_re :: matcher where
  "component_re = lit (js ''@Component({'')"

definition templateUrl_re :: matcher where
  "templateUrl_re = seq (lit (js ''templateUrl:'')) (dot_lazy (lit (js '','')))"

definition styleUrls_re :: matcher where
  "styleUrls_re = seq (lit (js ''styleUrls:'')) (dot_lazy (lit (js ''],'')))"

definition styleUrl_re :: matcher where
  "styleUrl_re = seq (lit (js ''styleUrl:'')) (dot_lazy (lit (js '','')))"

definition import_line :: jsstring where
  "import_line = js ''import { CommonModule } from '@angular/common';\<newline>''"

definition prepareAngularCode :: "jsstring \<Rightarrow> jsstring" where
  "prepareAngularCode userCode =
     (let code = userCode;
          code = (if \<not> includes_str code (js ''@angular/common'') then import_line @ code else code);
          code = replace selector_re (js ''selector: 'app-root'' @ [SQ]) code;
          code = replace class_re (js ''export class AppComponent'') code;
          code = (if \<not> includes_str code (js ''standalone:'')
                  then replace component_re (js ''@Component({\<newline>  standalone: true,'') code
                  else code);
          code = replace_all templateUrl_re [] code;
          code = replace_all styleUrls_re [] code;
          code = replace_all styleUrl_re [] code
      in code)"

text \<open>None of the six patterns of \<open>prepareAngularCode\<close> has a match in the text.\<close>

definition no_pattern_matches :: "jsstring \<Rightarrow> bool" where
  "no_pattern_matches s =
     (\<not> test selector_re s \<and> \<not> test class_re s \<and> \<not> test component_re s
      \<and> \<not> test templateUrl_re s \<and> \<not> test styleUrls_re s \<and> \<not> test styleUrl_re s)"

text \<open>
  The text of the leftmost match of a pattern, and the normal form of a component: the
  state that the rewrites of \<open>prepareAngularCode\<close> aim at. A text is in normal form
  when it refers to \<open>@angular/common\<close>, its leftmost selector and its leftmost exported
  class (if there are any) are the canonical ones, it declares \<open>standalone:\<close> or has no
  component decorator, and it has no reference to an external template or style sheet.
\<close>

fun first_match :: "matcher \<Rightarrow> jsstring \<Rightarrow> jsstring option" where
  "first_match m [] = (case m [] of None \<Rightarrow> None | Some n \<Rightarrow> Some [])"
| "first_match m (c # cs) =
     (case m (c # cs) of None \<Rightarrow> first_match m cs | Some n \<Rightarrow> Some (take n (c # cs)))"

definition canonical :: "matcher \<Rightarrow> jsstring \<Rightarrow> jsstring \<Rightarrow> bool" where
  "canonical m r t = (case first_match m t of None \<Rightarrow> True | Some x \<Rightarrow> x = r)"

definition normal_form :: "jsstring \<Rightarrow> bool" where
  "normal_form t =
     (includes_str t (js ''@angular/common'')
      \<and> canonical selector_re (js ''selector: 'app-root'' @ [SQ]) t
      \<and> canonical class_re (js ''export class AppComponent'') t
      \<and> (includes_str t (js ''standalone:'') \<or> first_match component_re t = None)
      \<and> first_match templateUrl_re t = None
      \<and> first_match styleUrls_re t = None
      \<and> first_match styleUrl_re t = None)"

text \<open>A component for the examples.\<close>

definition example_component :: jsstring where
  "example_component =
     js ''@Component({\<newline>  selector: 'my-card',\<newline>  templateUrl: './card.html',\<newline>  template: '<p>hi</p>'\<newline>})\<newline>export class Card {}''"

section \<open>Transport encoding\<close>

text \<open>
  \<open>Buffer.from(string)\<close> encodes the string as UTF-8: a surrogate pair becomes the four
  bytes of its code point, a surrogate without its partner the three bytes of U+FFFD.
\<close>

definition replacement_bytes :: buffer where
  "replacement_bytes = [0xEF, 0xBF, 0xBD]"

definition utf8_of_code_point :: "nat \<Rightarrow> buffer" where
  "utf8_of_code_point n =
     (if n < 0x80 then [of_nat n]
      else if n < 0x800 then [of_nat (0xC0 + n div 0x40), of_nat (0x80 + n mod 0x40)]
      else if n < 0x10000 then
        [of_nat (0xE0 + n div 0x1000), of_nat (0x80 + n div 0x40 mod 0x40),
         of_nat (0x80 + n mod 0x40)]
      else
        [of_nat (0xF0 + n div 0x40000), of_nat (0x80 + n div 0x1000 mod 0x40),
         of_nat (0x80 + n div 0x40 mod 0x40), of_nat (0x80 + n mod 0x40)])"

definition is_high_surrogate :: "jschar \<Rightarrow> bool" where
  "is_high_surrogate c = (0xD800 \<le> c \<and> c \<le> 0xDBFF)"

definition is_low_surrogate :: "jschar \<Rightarrow> bool" where
  "is_low_surrogate c = (0xDC00 \<le> c \<and> c \<le> 0xDFFF)"

fun utf8_encode :: "jsstring \<Rightarrow> buffer" where
  "utf8_encode [] = []"
| "utf8_encode [c] =
     (if is_high_surrogate c \<or> is_low_surrogate c then replacement_bytes
      else utf8_of_code_point (unat c))"
| "utf8_encode (c # d # cs) =
     (if is_high_surrogate c \<and> is_low_surrogate d then
        utf8_of_code_point (0x10000 + (unat c - 0xD800) * 0x400 + (unat d - 0xDC00))
          @ utf8_encode cs
      else if is_high_surrogate c \<or> is_low_surrogate c then
        replacement_bytes @ utf8_encode (d # cs)
      else utf8_of_code_point (unat c) @ utf8_encode (d # cs))"

text \<open>
  \<open>buffer.toString('base64')\<close>: three bytes become four digits of the alphabet, and the
  last group of one or two bytes is padded with the equals sign.
\<close>

definition base64_digits :: jsstring where
  "base64_digits = js ''ABCDEFGHIJKLMNOPQRSTUVWXYZabcdefghijklmnopqrstuvwxyz0123456789+/''"

definition base64_digit :: "nat \<Rightarrow> jschar" where
  "base64_digit n = base64_digits ! n"

definition base64_pad :: jschar where
  "base64_pad = 0x3D"

fun base64 :: "buffer \<Rightarrow> jsstring" where
  "base64 [] = []"
| "base64 [a] =
     [base64_digit (unat a div 4), base64_digit (unat a mod 4 * 16), base64_pad, base64_pad]"
| "base64 [a, b] =
     [base64_digit (unat a div 4), base64_digit (unat a mod 4 * 16 + unat b div 16),
      base64_digit (unat b mod 16 * 4), base64_pad]"
| "base64 (a # b # c # bs) =
     [base64_digit (unat a div 4), base64_digit (unat a mod 4 * 16 + unat b div 16),
      base64_digit (unat b mod 16 * 4 + unat c div 64), base64_digit (unat c mod 64)]
       @ base64 bs"

definition base64_alphabet :: "jschar set" where
  "base64_alphabet = set base64_digits \<union> {base64_pad}"

text \<open>
  The characters that end or escape a double-quoted word of the shell, or start an
  expansion inside it, and the line break.
\<close>

definition shell_special :: "jschar set" where
  "shell_special = {DQ, SQ, 0x24, 0x60, 0x5C, 0x0A, 0x0D, 0x20, 0x3B, 0x7C, 0x26}"

section \<open>Framework profiles\<close>

record framework_profile =
  image :: jsstring
  filePath :: jsstring
  distPath :: jsstring
  cacheHostPath :: jsstring
  cacheContPath :: jsstring
  buildCmd :: jsstring

definition angular_profile :: framework_profile where
  "angular_profile =
     \<lparr> image = js ''angular-compiler:latest'',
       filePath = js ''src/app/app.ts'',
       distPath = js ''/workspace/template-app/dist/template-app'',
       cacheHostPath = js ''/tmp/angular-cache'',
       cacheContPath = js ''/workspace/template-app/.angular/cache'',
       buildCmd = js ''ng build --configuration production --output-hashing none --optimization true --source-map true --progress false'' \<rparr>"

definition react_profile :: framework_profile where
  "react_profile =
     \<lparr> image = js ''react-compiler:latest'',
       filePath = js ''src/App.tsx'',
       distPath = js ''/workspace/template-app/dist'',
       cacheHostPath = js ''/tmp/react-cache'',
       cacheContPath = js ''/workspace/template-app/node_modules/.vite'',
       buildCmd = js ''npm run build'' \<rparr>"

definition vue_profile :: framework_profile where
  "vue_profile =
     \<lparr> image = js ''vue-compiler:latest'',
       filePath = js ''src/App.vue'',
       distPath = js ''/workspace/template-app/dist'',
       cacheHostPath = js ''/tmp/vue-cache'',
       cacheContPath = js ''/workspace/template-app/node_modules/.vite'',
       buildCmd = js ''npx vite build'' \<rparr>"

text \<open>
  \<open>FRAMEWORKS\<close> is an object literal, and \<open>FRAMEWORKS[key]\<close> a property read: it finds the
  three profiles, and for the property names of \<open>Object.prototype\<close> the value inherited
  from there (a function or an object, none of which has a field of a profile).
  Every other key reads \<open>undefined\<close>.
\<close>

datatype config = Profile framework_profile | Inherited

definition object_prototype_keys :: "jsstring list" where
  "object_prototype_keys =
     [js ''constructor'', js ''__defineGetter__'', js ''__defineSetter__'',
      js ''hasOwnProperty'', js ''__lookupGetter__'', js ''__lookupSetter__'',
      js ''isPrototypeOf'', js ''propertyIsEnumerable'', js ''toString'', js ''valueOf'',
      js ''__proto__'', js ''toLocaleString'']"

definition FRAMEWORKS :: "jsstring \<Rightarrow> config option" where
  "FRAMEWORKS key =
     (if key = js ''angular'' then Some (Profile angular_profile)
      else if key = js ''react'' then Some (Profile react_profile)
      else if key = js ''vue'' then Some (Profile vue_profile)
      else if key \<in> set object_prototype_keys then Some Inherited
      else None)"

text \<open>A field of the configuration: \<open>undefined\<close> on an inherited value.\<close>

definition field :: "(framework_profile \<Rightarrow> jsstring) \<Rightarrow> config \<Rightarrow> jsstring option" where
  "field f c = (case c of Profile p \<Rightarrow> Some (f p) | Inherited \<Rightarrow> None)"

text \<open>A value substituted into a template literal.\<close>

definition subst :: "jsstring option \<Rightarrow> jsstring" where
  "subst v = (case v of None \<Rightarrow> js ''undefined'' | Some s \<Rightarrow> s)"

section \<open>Numbers\<close>

text \<open>
  A JavaScript number, as far as the validation of the limits reads it: not a number, a
  finite value (every finite double is a rational), or an infinity. A numeric field of a
  request is given by the value of \<open>Number(field)\<close>, or is absent (\<open>undefined\<close>).
\<close>

datatype jsnum = NaN | Fin rat | PosInf | NegInf

text \<open>\<open>isNaN(x) || x <= 0\<close>\<close>

definition not_positive :: "jsnum \<Rightarrow> bool" where
  "not_positive x = (case x of NaN \<Rightarrow> True | Fin r \<Rightarrow> r \<le> 0 | PosInf \<Rightarrow> False | NegInf \<Rightarrow> True)"

section \<open>The sandbox specification\<close>

record resource_limits =
  memory :: jsnum
  cpuPeriod :: jsnum
  cpuQuota :: jsnum

record container_spec =
  Image :: "jsstring option"
  name :: jsstring
  Cmd :: "jsstring list"
  Binds :: "jsstring list"
  Memory :: jsnum
  CpuPeriod :: jsnum
  CpuQuota :: jsnum
  User :: jsstring

definition finalCode :: "jsstring \<Rightarrow> jsstring \<Rightarrow> jsstring" where
  "finalCode framework userCode =
     (if framework = js ''angular'' then prepareAngularCode userCode else userCode)"

definition base64Code :: "jsstring \<Rightarrow> jsstring \<Rightarrow> jsstring" where
  "base64Code framework userCode = base64 (utf8_encode (finalCode framework userCode))"

definition cleanupCmd :: "jsstring \<Rightarrow> jsstring" where
  "cleanupCmd framework =
     (if framework = js ''vue'' then js ''rm -f src/components/*.vue && ''
      else if framework = js ''react'' then js ''rm -f src/*.css src/App.tsx && ''
      else if framework = js ''angular'' then
        js ''rm -f src/app/app.ts src/app/app.component.html src/app/app.component.css && ''
      else [])"

text \<open>The text of the command before and after the encoded source.\<close>

definition command_head :: "jsstring \<Rightarrow> jsstring" where
  "command_head framework =
     js ''\<newline>cd /workspace/template-app\<newline>'' @ cleanupCmd framework
       @ js ''\<newline>printf '%s' '' @ [DQ]"

definition command_tail :: "config \<Rightarrow> jsstring" where
  "command_tail config =
     [DQ] @ js '' | base64 -d > '' @ subst (field filePath config)
       @ js ''\<newline># Ensure the file timestamp is updated for Vite to pick up changes\<newline>touch ''
       @ subst (field filePath config)
       @ js ''\<newline>sync\<newline>'' @ subst (field buildCmd config)
       @ js '' && echo '' @ [DQ] @ js ''COMPILATION_COMPLETE'' @ [DQ] @ js ''\<newline>''"

definition createCompilationContainer ::
    "jsstring \<Rightarrow> jsstring \<Rightarrow> config \<Rightarrow> jsstring \<Rightarrow> resource_limits \<Rightarrow> container_spec" where
  "createCompilationContainer cid userCode config framework resourceLimits =
     \<lparr> Image = field image config,
       name = framework @ js ''-compile-'' @ cid,
       Cmd = [js ''/bin/sh'', js ''-c'',
              command_head framework @ base64Code framework userCode @ command_tail config],
       Binds = [subst (field cacheHostPath config) @ js '':'' @ subst (field cacheContPath config)],
       Memory = memory resourceLimits,
       CpuPeriod = cpuPeriod resourceLimits,
       CpuQuota = cpuQuota resourceLimits,
       User = js ''root'' \<rparr>"

section \<open>Errors\<close>

text \<open>
  The exceptions of a job: the \<open>RangeError\<close> that \<open>Buffer.readUInt32BE\<close> raises for an
  offset out of range, and an error thrown by the container runtime or by the archive
  stream, with its message. Where the source puts \<open>error.message\<close> into a result, the
  model keeps the exception it is the message of.
\<close>

datatype exn = RangeError | Thrown jsstring

datatype error_text = Text jsstring | MessageOf exn

section \<open>Log demultiplexing\<close>

text \<open>
  \<open>buf.readUInt32BE(offset)\<close> reads four bytes, the most significant first, and raises
  when they are not all inside the buffer.
\<close>

definition readUInt32BE :: "buffer \<Rightarrow> nat \<Rightarrow> exn + nat" where
  "readUInt32BE buf offset =
     (if offset + 4 \<le> length buf then
        Inr (unat (buf ! offset) * 2 ^ 24 + unat (buf ! (offset + 1)) * 2 ^ 16
             + unat (buf ! (offset + 2)) * 2 ^ 8 + unat (buf ! (offset + 3)))
      else Inl RangeError)"

text \<open>
  The bytes that \<open>buf.toString('utf8', start, end)\<close> decodes: from \<open>start\<close> up to
  \<open>end\<close>, or up to the end of the buffer when that comes first.
\<close>

definition slice :: "buffer \<Rightarrow> nat \<Rightarrow> nat \<Rightarrow> buffer" where
  "slice buf start end' = take (end' - start) (drop start buf)"

text \<open>
  The loop of \<open>waitForCompletion\<close> over the log buffer, with its two variables
  \<open>offset\<close> and \<open>cleanLogs\<close>. The UTF-8 decoder of the runtime is the parameter
  \<open>decode\<close>.
\<close>

function demux :: "(buffer \<Rightarrow> jsstring) \<Rightarrow> buffer \<Rightarrow> nat \<Rightarrow> jsstring \<Rightarrow> exn + jsstring" where
  "demux decode logsBuffer offset cleanLogs =
     (if offset < length logsBuffer then
        (case readUInt32BE logsBuffer (offset + 4) of
           Inl e \<Rightarrow> Inl e
         | Inr len \<Rightarrow>
             demux decode logsBuffer (offset + 8 + len)
               (cleanLogs @ decode (slice logsBuffer (offset + 8) (offset + 8 + len))))
      else Inr cleanLogs)"
  by pat_completeness auto
termination
  by (relation "measure (\<lambda>(decode, logsBuffer, offset, cleanLogs). length logsBuffer - offset)")
    auto

section \<open>Waiting for the sandbox\<close>

text \<open>
  \<open>waitForCompletion\<close> races a timer against the chain \<open>container.wait()\<close>,
  \<open>container.logs()\<close>, demultiplexing. What the sandbox does, and which of the two
  settles first, is given from outside: the timer fires first; or \<open>wait\<close> or \<open>logs\<close>
  rejects; or the sandbox exits with a status code and a log buffer.
\<close>

datatype wait_outcome =
    DeadlineFirst
  | WaitRejects exn
  | LogsRejects exn
  | Exited int buffer

record wait_result =
  success :: bool
  error :: "error_text option"
  logs :: jsstring

definition waitForCompletion :: "(buffer \<Rightarrow> jsstring) \<Rightarrow> wait_outcome \<Rightarrow> wait_result" where
  "waitForCompletion decode outcome =
     (case outcome of
        DeadlineFirst \<Rightarrow>
          \<lparr> success = False, error = Some (Text (js ''Compilation timeout'')), logs = [] \<rparr>
      | WaitRejects e \<Rightarrow> \<lparr> success = False, error = Some (MessageOf e), logs = [] \<rparr>
      | LogsRejects e \<Rightarrow> \<lparr> success = False, error = Some (MessageOf e), logs = [] \<rparr>
      | Exited StatusCode logsBuffer \<Rightarrow>
          (case demux decode logsBuffer 0 [] of
             Inl e \<Rightarrow> \<lparr> success = False, error = Some (MessageOf e), logs = [] \<rparr>
           | Inr cleanLogs \<Rightarrow>
               if StatusCode = 0 \<and> includes_str cleanLogs (js ''COMPILATION_COMPLETE'')
               then \<lparr> success = True, error = None, logs = cleanLogs \<rparr>
               else \<lparr> success = False, error = Some (Text (js ''Build Failed'')),
                      logs = cleanLogs \<rparr>))"

section \<open>Collecting the artifacts\<close>

text \<open>An entry of the archive as \<open>tar-stream\<close> delivers it: the header's name and type,
  and the chunks of the body.\<close>

record tar_entry =
  header_name :: jsstring
  header_type :: jsstring
  chunks :: "buffer list"

text \<open>
  The pattern \<^verbatim>\<open>/\.(js|css|html|map)$/\<close>; the end of the text is written into each
  alternative.
\<close>

definition at_end :: matcher where
  "at_end s = (if s = [] then Some 0 else None)"

definition alt :: "matcher \<Rightarrow> matcher \<Rightarrow> matcher" where
  "alt m1 m2 s = (case m1 s of Some n \<Rightarrow> Some n | None \<Rightarrow> m2 s)"

definition extension_re :: matcher where
  "extension_re =
     seq (lit (js ''.''))
       (alt (seq (lit (js ''js'')) at_end)
         (alt (seq (lit (js ''css'')) at_end)
           (alt (seq (lit (js ''html'')) at_end) (seq (lit (js ''map'')) at_end))))"

text \<open>The object \<open>files\<close>: its keys with their values; an assignment to a key that is
  there replaces the value.\<close>

type_synonym files = "(jsstring \<times> jsstring) list"

definition filename_of :: "tar_entry \<Rightarrow> jsstring" where
  "filename_of e = last (split (header_name e) 0x2F)"

definition on_entry :: "(buffer \<Rightarrow> jsstring) \<Rightarrow> tar_entry \<Rightarrow> files \<Rightarrow> files" where
  "on_entry decode e fs =
     (let filename = filename_of e in
      if header_type e = js ''file'' \<and> test extension_re filename
      then AList.update filename (decode (concat (chunks e))) fs
      else fs)"

text \<open>
  What the archive does: \<open>getArchive\<close> rejects; or the extraction delivers some entries
  and then emits \<open>error\<close>; or it delivers all entries and finishes.
\<close>

datatype archive_outcome =
    GetArchiveRejects exn
  | ExtractError "tar_entry list" exn
  | ExtractFinished "tar_entry list"

text \<open>
  \<open>extractCompiledFiles\<close>: the awaited \<open>getArchive\<close> is inside the \<open>try\<close>, so its
  rejection is caught and gives the empty object. The promise around the extraction is
  returned from inside the \<open>try\<close> without \<open>await\<close>, so the \<open>catch\<close> does not see its
  rejection: the function rejects with the error of the extraction.
\<close>

definition extractCompiledFiles :: "(buffer \<Rightarrow> jsstring) \<Rightarrow> archive_outcome \<Rightarrow> exn + files" where
  "extractCompiledFiles decode outcome =
     (case outcome of
        GetArchiveRejects e \<Rightarrow> Inr []
      | ExtractError es e \<Rightarrow> Inl e
      | ExtractFinished es \<Rightarrow> Inr (fold (on_entry decode) es []))"

section \<open>The compile request\<close>

record docker_limits =
  MEMORY :: jsnum
  CPU_PERIOD :: jsnum
  CPU_QUOTA :: jsnum

record server_state =
  DOCKER_LIMITS :: docker_limits
  DEFAULT_COMPILE_TIMEOUT_MS :: jsnum

text \<open>
  The body of a request. \<open>framework\<close> is absent, a string, or a value of another type;
  \<open>code\<close> is a string or not; each numeric field is absent or has a value, given by what
  \<open>Number\<close> makes of it.
\<close>

datatype framework_field = Undefined | StringValue jsstring | OtherValue

record request =
  req_code :: "jsstring option"
  req_framework :: framework_field
  req_timeout :: "jsnum option"
  req_memory :: "jsnum option"
  req_cpuPeriod :: "jsnum option"
  req_cpuQuota :: "jsnum option"

text \<open>A response: a failure with its status, error text and logs, or the success (status
  200) with the framework, the files and the compilation time.\<close>

datatype response =
    Failure nat error_text "jsstring option"
  | Success jsstring files nat

definition BAD_REQUEST :: nat where
  "BAD_REQUEST = 400"

definition INTERNAL_SERVER_ERROR :: nat where
  "INTERNAL_SERVER_ERROR = 500"

definition timeout_message :: jsstring where
  "timeout_message = js ''Invalid timeout value. Must be a positive number (milliseconds)''"

definition unsupported_message :: "jsstring \<Rightarrow> jsstring" where
  "unsupported_message framework = js ''Unsupported framework: '' @ framework"

definition code_message :: jsstring where
  "code_message = js ''Invalid code provided''"

definition limits_message :: jsstring where
  "limits_message =
     js ''Invalid resource limits. memory, cpuPeriod, and cpuQuota must be positive numbers''"

text \<open>
  The checks of the handler before the \<open>try\<close>, in the order of the source. A framework
  that is not a string has no \<open>toLowerCase\<close>: the handler throws before any check and
  sends no response.
\<close>

datatype validation =
    TypeErrorThrown
  | Rejected response
  | Accepted jsstring config jsstring jsnum resource_limits

definition or_default :: "jsnum option \<Rightarrow> jsnum \<Rightarrow> jsnum" where
  "or_default v d = (case v of None \<Rightarrow> d | Some x \<Rightarrow> x)"

definition validate :: "server_state \<Rightarrow> request \<Rightarrow> validation" where
  "validate st req =
     (case req_framework req of
        OtherValue \<Rightarrow> TypeErrorThrown
      | fw \<Rightarrow>
         (let framework = (case fw of StringValue s \<Rightarrow> s | _ \<Rightarrow> js ''angular'');
              config = FRAMEWORKS (toLowerCase framework);
              compileTimeoutMs = or_default (req_timeout req) (DEFAULT_COMPILE_TIMEOUT_MS st)
          in
          if not_positive compileTimeoutMs then
            Rejected (Failure BAD_REQUEST (Text timeout_message) None)
          else (case config of
             None \<Rightarrow>
               Rejected (Failure BAD_REQUEST (Text (unsupported_message framework)) None)
           | Some cfg \<Rightarrow>
              (case req_code req of
                 None \<Rightarrow> Rejected (Failure BAD_REQUEST (Text code_message) None)
               | Some code \<Rightarrow>
                  if code = [] then
                    Rejected (Failure BAD_REQUEST (Text code_message) None)
                  else
                    (let resourceLimits =
                       \<lparr> memory = or_default (req_memory req) (MEMORY (DOCKER_LIMITS st)),
                         cpuPeriod = or_default (req_cpuPeriod req) (CPU_PERIOD (DOCKER_LIMITS st)),
                         cpuQuota = or_default (req_cpuQuota req) (CPU_QUOTA (DOCKER_LIMITS st)) \<rparr>
                     in
                     if not_positive (memory resourceLimits)
                        \<or> not_positive (cpuPeriod resourceLimits)
                        \<or> not_positive (cpuQuota resourceLimits)
                     then Rejected (Failure BAD_REQUEST (Text limits_message) None)
                     else Accepted framework cfg code compileTimeoutMs resourceLimits)))))"

text \<open>
  What happens to one job outside the handler: the identifier drawn for it, whether the
  creation and the start of the container reject, how the wait and the archive go,
  whether the removal rejects, and the time the job took.
\<close>

record sandbox =
  compilationId :: jsstring
  create_error :: "exn option"
  start_error :: "exn option"
  completion :: wait_outcome
  archive :: archive_outcome
  remove_error :: "exn option"
  duration :: nat

text \<open>The calls to the container runtime, and the log line of a failed cleanup.\<close>

datatype event =
    ContainerCreate container_spec
  | ContainerStart
  | ContainerWait
  | GetArchive "jsstring option"
  | ContainerRemove
  | CleanupErrorLogged exn

text \<open>
  The \<open>try\<close> block: the response it sends or the exception it throws, the calls it made,
  and whether the variable \<open>container\<close> was assigned.
\<close>

definition try_block ::
    "(buffer \<Rightarrow> jsstring) \<Rightarrow> sandbox \<Rightarrow> jsstring \<Rightarrow> config \<Rightarrow> jsstring \<Rightarrow> jsnum \<Rightarrow> resource_limits
      \<Rightarrow> (exn + response) \<times> event list \<times> bool" where
  "try_block decode sb framework config code compileTimeoutMs resourceLimits =
     (let spec = createCompilationContainer (compilationId sb) code config framework resourceLimits
      in case create_error sb of
        Some e \<Rightarrow> (Inl e, [ContainerCreate spec], False)
      | None \<Rightarrow>
         (case start_error sb of
            Some e \<Rightarrow> (Inl e, [ContainerCreate spec, ContainerStart], True)
          | None \<Rightarrow>
             (let result = waitForCompletion decode (completion sb) in
              if \<not> success result then
                (Inr (Failure BAD_REQUEST (Text (toUpperCase framework @ js '' Build Failed''))
                        (Some (logs result))),
                 [ContainerCreate spec, ContainerStart, ContainerWait], True)
              else
                (case extractCompiledFiles decode (archive sb) of
                   Inl e \<Rightarrow>
                     (Inl e,
                      [ContainerCreate spec, ContainerStart, ContainerWait,
                       GetArchive (field distPath config)], True)
                 | Inr compiledFiles \<Rightarrow>
                     (Inr (Success framework compiledFiles (duration sb)),
                      [ContainerCreate spec, ContainerStart, ContainerWait,
                       GetArchive (field distPath config)], True)))))"

text \<open>The \<open>catch\<close> block answers an exception of the \<open>try\<close> block with status 500.\<close>

definition catch_block :: "exn + response \<Rightarrow> response" where
  "catch_block r =
     (case r of
        Inl e \<Rightarrow> Failure INTERNAL_SERVER_ERROR (MessageOf e) None
      | Inr resp \<Rightarrow> resp)"

text \<open>The \<open>finally\<close> block removes the container when there is one, and logs a failure
  of the removal.\<close>

definition finally_block :: "sandbox \<Rightarrow> bool \<Rightarrow> event list" where
  "finally_block sb container =
     (if container then
        ContainerRemove # (case remove_error sb of None \<Rightarrow> [] | Some e \<Rightarrow> [CleanupErrorLogged e])
      else [])"

text \<open>
  The handler of \<open>POST /compile\<close>: the response it sends, if any, and the calls it made
  in their order.
\<close>

definition compile ::
    "(buffer \<Rightarrow> jsstring) \<Rightarrow> server_state \<Rightarrow> sandbox \<Rightarrow> request \<Rightarrow> response option \<times> event list" where
  "compile decode st sb req =
     (case validate st req of
        TypeErrorThrown \<Rightarrow> (None, [])
      | Rejected resp \<Rightarrow> (Some resp, [])
      | Accepted framework config code compileTimeoutMs resourceLimits \<Rightarrow>
          (case try_block decode sb framework config code compileTimeoutMs resourceLimits of
             (r, evs, container) \<Rightarrow> (Some (catch_block r), evs @ finally_block sb container)))"

section \<open>Framed log records\<close>

text \<open>
  The framing of the log stream as the specification words it: a record is a header of
  eight bytes (one byte for the stream type, three reserved bytes, the length of the
  payload as four bytes, the most significant first) followed by the payload.
\<close>

record log_record =
  stream_type :: byte
  reserved :: "byte \<times> byte \<times> byte"
  payload :: buffer

definition be32 :: "nat \<Rightarrow> buffer" where
  "be32 n = [of_nat (n div 16777216), of_nat (n div 65536 mod 256), of_nat (n div 256 mod 256),
             of_nat (n mod 256)]"

definition frame :: "log_record \<Rightarrow> buffer" where
  "frame r =
     (case reserved r of (r1, r2, r3) \<Rightarrow>
        [stream_type r, r1, r2, r3] @ be32 (length (payload r)) @ payload r)"

definition frames :: "log_record list \<Rightarrow> buffer" where
  "frames rs = concat (map frame rs)"

section \<open>Output files\<close>

text \<open>
  The filter of the artifact collector as the specification words it: the base name of
  an entry is the final segment of its path, an output file has a base name that ends
  in one of the four extensions, and an entry is retained when it is a regular file
  with such a base name.
\<close>

definition base_name :: "jsstring \<Rightarrow> jsstring" where
  "base_name path = rev (takeWhile (\<lambda>c. c \<noteq> 0x2F) (rev path))"

definition has_output_extension :: "jsstring \<Rightarrow> bool" where
  "has_output_extension s =
     (endsWith s (js ''.js'') \<or> endsWith s (js ''.css'') \<or> endsWith s (js ''.html'')
      \<or> endsWith s (js ''.map''))"

definition retained :: "tar_entry \<Rightarrow> bool" where
  "retained e = (header_type e = js ''file'' \<and> has_output_extension (base_name (header_name e)))"

definition body_text :: "(buffer \<Rightarrow> jsstring) \<Rightarrow> tar_entry \<Rightarrow> jsstring" where
  "body_text decode e = decode (concat (chunks e))"

text \<open>
  On bytes below \<open>0x80\<close> UTF-8 is ASCII: each byte is the code unit of the same value.
  The examples below use buffers of such bytes, decoded by \<open>ascii\<close>.
\<close>

definition ascii :: "buffer \<Rightarrow> jsstring" where
  "ascii bs = map ucast bs"

text \<open>
  An archive for the examples: two files named \<open>a.js\<close> in different directories, a
  file with an upper-case extension, a nested file, a directory and a symbolic link.
\<close>

definition example_archive :: "tar_entry list" where
  "example_archive =
     [\<lparr>header_name = js ''a.js'', header_type = js ''file'', chunks = [[0x31]]\<rparr>,
      \<lparr>header_name = js ''b.CSS'', header_type = js ''file'', chunks = [[0x32]]\<rparr>,
      \<lparr>header_name = js ''dir/c.html'', header_type = js ''file'', chunks = [[0x33]]\<rparr>,
      \<lparr>header_name = js ''dir/'', header_type = js ''directory'', chunks = []\<rparr>,
      \<lparr>header_name = js ''dir/a.js'', header_type = js ''file'', chunks = [[0x34], [0x35]]\<rparr>,
      \<lparr>header_name = js ''dir/d.js'', header_type = js ''symlink'', chunks = []\<rparr>]"

text \<open>
  The state of the server with the defaults of the source, a request for a React build,
  and a job that goes well: the sandbox exits with status 0 after printing the
  completion marker, and the example archive is read to its end.
\<close>

definition default_state :: server_state where
  "default_state =
     \<lparr> DOCKER_LIMITS = \<lparr> MEMORY = Fin 2147483648, CPU_PERIOD = Fin 100000, CPU_QUOTA = Fin 200000 \<rparr>,
       DEFAULT_COMPILE_TIMEOUT_MS = Fin 60000 \<rparr>"

definition react_request :: request where
  "react_request =
     \<lparr> req_code = Some (js ''export default 1''), req_framework = StringValue (js ''react''),
       req_timeout = None, req_memory = None, req_cpuPeriod = None, req_cpuQuota = None \<rparr>"

definition completed_log :: buffer where
  "completed_log =
     frames [\<lparr> stream_type = 1, reserved = (0, 0, 0),
               payload = map of_char ''COMPILATION_COMPLETE'' \<rparr>]"

definition example_sandbox :: sandbox where
  "example_sandbox =
     \<lparr> compilationId = js ''c0ffee'', create_error = None, start_error = None,
       completion = Exited 0 completed_log, archive = ExtractFinished example_archive,
       remove_error = None, duration = 1234 \<rparr>"

text \<open>A numeric field of the request that is present and fails \<open>isNaN(x) || x <= 0\<close>.\<close>

definition invalid_override :: "jsnum option \<Rightarrow> bool" where
  "invalid_override v = (case v of None \<Rightarrow> False | Some x \<Rightarrow> not_positive x)"

declare demux.simps [simp del]

section \<open>The encoded source in the shell command\<close>

lemma length_base64_digits: "length base64_digits = 64"
  by (simp add: base64_digits_def js_def)

lemma base64_digit_in_alphabet: "n < 64 \<Longrightarrow> base64_digit n \<in> base64_alphabet"
  by (simp add: base64_digit_def base64_alphabet_def length_base64_digits)

lemma base64_pad_in_alphabet: "base64_pad \<in> base64_alphabet"
  by (simp add: base64_alphabet_def)

lemma unat_byte_less: "unat (a :: byte) < 256"
proof -
  have "unat a < 2 ^ LENGTH(8)" by (rule unsigned_less)
  then show ?thesis by simp
qed

lemma base64_in_alphabet: "set (base64 bs) \<subseteq> base64_alphabet"
proof (induction bs rule: base64.induct)
  case 1
  show ?case by simp
next
  case (2 a)
  have "unat a div 4 < 64" "unat a mod 4 * 16 < 64"
    using unat_byte_less [of a] by arith+
  then show ?case
    by (simp add: base64_digit_in_alphabet base64_pad_in_alphabet)
next
  case (3 a b)
  have "unat a div 4 < 64" "unat a mod 4 * 16 + unat b div 16 < 64" "unat b mod 16 * 4 < 64"
    using unat_byte_less [of a] unat_byte_less [of b] by arith+
  then show ?case
    by (simp add: base64_digit_in_alphabet base64_pad_in_alphabet)
next
  case (4 a b c bs)
  have "unat a div 4 < 64" "unat a mod 4 * 16 + unat b div 16 < 64"
    "unat b mod 16 * 4 + unat c div 64 < 64" "unat c mod 64 < 64"
    using unat_byte_less [of a] unat_byte_less [of b] unat_byte_less [of c] by arith+
  with 4 show ?case
    by (simp add: base64_digit_in_alphabet)
qed

lemma alphabet_not_special: "base64_alphabet \<inter> shell_special = {}"
  by (simp add: base64_alphabet_def shell_special_def base64_digits_def js_def
      base64_pad_def SQ_def DQ_def)

text \<open>
  Claim C2. For every submitted source string, whatever characters it holds, the shell
  command built for the sandbox is the fixed template (a head that depends on the
  framework name only, a tail that depends on the profile only) around the base64
  encoding of the UTF-8 bytes of the normalized source, where the source is normalized
  by \<open>prepareAngularCode\<close> when the framework name is \<open>angular\<close> and taken as it is
  otherwise. Every character of the encoding is a base64 digit or the padding sign, and
  none of these is a quote, a dollar sign, a backquote, a backslash, a line break or
  another character special to the shell.
\<close>

theorem command_embeds_base64_only:
  "Cmd (createCompilationContainer cid userCode config framework resourceLimits) =
     [js ''/bin/sh'', js ''-c'',
      command_head framework
        @ base64 (utf8_encode
            (if framework = js ''angular'' then prepareAngularCode userCode else userCode))
        @ command_tail config]
   \<and> set (base64Code framework userCode) \<subseteq> base64_alphabet
   \<and> base64_alphabet \<inter> shell_special = {}"
  by (simp add: createCompilationContainer_def base64Code_def finalCode_def
      base64_in_alphabet alphabet_not_special)

theorem command_embeds_base64_only_witness:
  "Cmd (createCompilationContainer (js ''7'') ([DQ] @ js ''; rm -rf / #'') (Profile react_profile)
      (js ''react'') \<lparr>memory = Fin 1, cpuPeriod = Fin 1, cpuQuota = Fin 1\<rparr>) =
     [js ''/bin/sh'', js ''-c'',
      command_head (js ''react'') @ js ''Ijsgcm0gLXJmIC8gIw=='' @ command_tail (Profile react_profile)]
   \<and> set (js ''Ijsgcm0gLXJmIC8gIw=='') \<subseteq> base64_alphabet
   \<and> base64_alphabet \<inter> shell_special = {}"
proof -
  have e: "base64 (utf8_encode ([DQ] @ js ''; rm -rf / #'')) = js ''Ijsgcm0gLXJmIC8gIw==''"
    by (simp add: js_def DQ_def is_high_surrogate_def is_low_surrogate_def
        utf8_of_code_point_def base64_digit_def base64_digits_def base64_pad_def)
  have n: "js ''react'' \<noteq> js ''angular''"
    by (simp add: js_def)
  from command_embeds_base64_only [of "js ''7''" "[DQ] @ js ''; rm -rf / #''"
      "Profile react_profile" "js ''react''" "\<lparr>memory = Fin 1, cpuPeriod = Fin 1, cpuQuota = Fin 1\<rparr>"]
  show ?thesis
    by (simp only: base64Code_def finalCode_def n if_False e)
qed

section \<open>Decoding the log stream\<close>

lemma unat_of_nat_byte: "n < 256 \<Longrightarrow> unat (of_nat n :: byte) = n"
  by (simp add: unat_of_nat)

lemma digits_sum:
  "(n::nat) = a * 256 + x \<Longrightarrow> a = b * 256 + y \<Longrightarrow> b = c * 256 + z
    \<Longrightarrow> c * 16777216 + z * 65536 + y * 256 + x = n"
  by simp

lemma be32_sum:
  "(n::nat) div 16777216 * 16777216 + n div 65536 mod 256 * 65536 + n div 256 mod 256 * 256
      + n mod 256 = n"
proof -
  have 1: "n div 65536 = n div 256 div 256"
    using div_mult2_eq [of n 256 256] by simp
  have 2: "n div 16777216 = n div 256 div 256 div 256"
    using div_mult2_eq [of n 65536 256] 1 by simp
  show ?thesis
    unfolding 1 2
    by (rule digits_sum) simp_all
qed

lemma be32_value:
  assumes "n < 2 ^ 32"
  shows "unat (be32 n ! 0) * 2 ^ 24 + unat (be32 n ! 1) * 2 ^ 16 + unat (be32 n ! 2) * 2 ^ 8
           + unat (be32 n ! 3) = n"
proof -
  have a: "n div 16777216 < 256" using assms by (simp add: less_mult_imp_div_less)
  have "unat (of_nat (n div 16777216) :: byte) = n div 16777216"
    using a by (rule unat_of_nat_byte)
  moreover have "unat (of_nat (n div 65536 mod 256) :: byte) = n div 65536 mod 256"
    by (rule unat_of_nat_byte) simp
  moreover have "unat (of_nat (n div 256 mod 256) :: byte) = n div 256 mod 256"
    by (rule unat_of_nat_byte) simp
  moreover have "unat (of_nat (n mod 256) :: byte) = n mod 256"
    by (rule unat_of_nat_byte) simp
  ultimately show ?thesis
    using be32_sum [of n] by (simp add: be32_def)
qed

lemma length_frame: "length (frame r) = 8 + length (payload r)"
  by (simp add: frame_def be32_def split: prod.splits)

lemma read_frame_length:
  assumes "length (payload r) < 2 ^ 32"
  shows "readUInt32BE (pre @ frame r @ rest) (length pre + 4) = Inr (length (payload r))"
proof -
  obtain r1 r2 r3 where rs: "reserved r = (r1, r2, r3)"
    by (cases "reserved r") auto
  let ?n = "length (payload r)"
  have f: "frame r = [stream_type r, r1, r2, r3] @ be32 ?n @ payload r"
    by (simp add: frame_def rs)
  have 0: "(pre @ frame r @ rest) ! (length pre + 4) = be32 ?n ! 0"
    by (simp add: f nth_append be32_def)
  have 1: "(pre @ frame r @ rest) ! (length pre + 4 + 1) = be32 ?n ! 1"
    by (simp add: f nth_append be32_def)
  have 2: "(pre @ frame r @ rest) ! (length pre + 4 + 2) = be32 ?n ! 2"
    by (simp add: f nth_append be32_def)
  have 3: "(pre @ frame r @ rest) ! (length pre + 4 + 3) = be32 ?n ! 3"
    by (simp add: f nth_append be32_def)
  have le: "length pre + 4 + 4 \<le> length (pre @ frame r @ rest)"
    by (simp add: length_frame)
  show ?thesis
    unfolding readUInt32BE_def 0 1 2 3 be32_value [OF assms]
    using le by simp
qed

lemma slice_frame_payload:
  "slice (pre @ frame r @ rest) (length pre + 8) (length pre + 8 + length (payload r)) = payload r"
  by (simp add: slice_def frame_def be32_def split: prod.splits)

text \<open>
  The loop, started at the first byte of a run of well-formed frames, arrives behind
  the run with their decoded payloads appended, whatever stands before and behind the
  run.
\<close>

lemma demux_frames:
  assumes "\<forall>r\<in>set rs. length (payload r) < 2 ^ 32"
  shows "demux decode (pre @ frames rs @ rest) (length pre) acc =
         demux decode (pre @ frames rs @ rest) (length pre + length (frames rs))
           (acc @ concat (map (\<lambda>r. decode (payload r)) rs))"
  using assms
proof (induction rs arbitrary: pre acc)
  case Nil
  show ?case by (simp add: frames_def)
next
  case (Cons r rs)
  let ?buf = "pre @ frame r @ frames rs @ rest"
  have b: "pre @ frames (r # rs) @ rest = ?buf"
    by (simp add: frames_def)
  have len: "length (payload r) < 2 ^ 32" using Cons.prems by simp
  have lt: "length pre < length ?buf" by (simp add: length_frame)
  have step: "demux decode ?buf (length pre) acc =
      demux decode ?buf (length pre + 8 + length (payload r)) (acc @ decode (payload r))"
    using lt read_frame_length [OF len, of pre "frames rs @ rest"]
      slice_frame_payload [of pre r "frames rs @ rest"]
    by (subst demux.simps) simp
  have ih: "demux decode ((pre @ frame r) @ frames rs @ rest) (length (pre @ frame r)) (acc @ decode (payload r)) =
      demux decode ((pre @ frame r) @ frames rs @ rest) (length (pre @ frame r) + length (frames rs))
        ((acc @ decode (payload r)) @ concat (map (\<lambda>r. decode (payload r)) rs))"
    using Cons.prems by (intro Cons.IH) simp
  have lf: "length (frames (r # rs)) = 8 + length (payload r) + length (frames rs)"
    by (simp add: frames_def length_frame)
  show ?case
    unfolding b lf using step ih by (simp add: length_frame add.assoc)
qed

lemma demux_end: "length buf \<le> offset \<Longrightarrow> demux decode buf offset acc = Inr acc"
  by (subst demux.simps) simp

lemma demux_short_header:
  "offset < length buf \<Longrightarrow> length buf < offset + 8 \<Longrightarrow> demux decode buf offset acc = Inl RangeError"
  by (subst demux.simps) (simp add: readUInt32BE_def)

text \<open>
  Claim C8. Log demultiplexing is a round trip: for every sequence of records (none,
  one or many, with payloads of any length below \<open>2^32\<close>, the empty payload included,
  and with any stream type and reserved bytes), the loop run on the concatenated frames
  returns the payloads, each decoded, concatenated in their order; and this is the
  transcript in the result of \<open>waitForCompletion\<close>.
\<close>

theorem demux_round_trip:
  assumes "\<forall>r\<in>set rs. length (payload r) < 2 ^ 32"
  shows "demux decode (frames rs) 0 [] = Inr (concat (map (\<lambda>r. decode (payload r)) rs))
       \<and> logs (waitForCompletion decode (Exited StatusCode (frames rs))) =
           concat (map (\<lambda>r. decode (payload r)) rs)"
proof -
  have d: "demux decode (frames rs) 0 [] = Inr (concat (map (\<lambda>r. decode (payload r)) rs))"
    using demux_frames [OF assms, of decode "[]" "[]" "[]"] by (simp add: demux_end)
  then show ?thesis
    by (simp add: waitForCompletion_def)
qed

theorem demux_round_trip_witness:
  "frames [\<lparr>stream_type = 1, reserved = (0, 0, 0), payload = [0x68, 0x69]\<rparr>,
           \<lparr>stream_type = 2, reserved = (0, 0, 0), payload = []\<rparr>,
           \<lparr>stream_type = 1, reserved = (0, 0, 0), payload = [0x21]\<rparr>] =
     [1, 0, 0, 0, 0, 0, 0, 2, 0x68, 0x69, 2, 0, 0, 0, 0, 0, 0, 0, 1, 0, 0, 0, 0, 0, 0, 1, 0x21]
   \<and> demux ascii
       [1, 0, 0, 0, 0, 0, 0, 2, 0x68, 0x69, 2, 0, 0, 0, 0, 0, 0, 0, 1, 0, 0, 0, 0, 0, 0, 1, 0x21]
       0 [] = Inr (js ''hi!'')
   \<and> demux ascii (frames []) 0 [] = Inr []"
proof -
  let ?rs = "[\<lparr>stream_type = 1, reserved = (0, 0, 0), payload = [0x68, 0x69]\<rparr>,
           \<lparr>stream_type = 2, reserved = (0, 0, 0), payload = []\<rparr>,
           \<lparr>stream_type = 1, reserved = (0, 0, 0), payload = [0x21 :: byte]\<rparr>]"
  have f: "frames ?rs =
     [1, 0, 0, 0, 0, 0, 0, 2, 0x68, 0x69, 2, 0, 0, 0, 0, 0, 0, 0, 1, 0, 0, 0, 0, 0, 0, 1, 0x21]"
    by (simp add: frames_def frame_def be32_def)
  have h: "\<forall>r\<in>set ?rs. length (payload r) < 2 ^ 32"
    by simp
  have h0: "\<forall>r\<in>set ([] :: log_record list). length (payload r) < 2 ^ 32"
    by simp
  show ?thesis
    using demux_round_trip [OF h, of ascii 0] demux_round_trip [OF h0, of ascii 0]
    unfolding f by (simp add: ascii_def js_def)
qed

text \<open>
  Claim C5, as the code has it. When the log buffer ends in an incomplete header (one
  to seven bytes behind the last complete record), \<open>readUInt32BE\<close> raises a
  \<open>RangeError\<close>: the loop does not return the transcript decoded so far, and
  \<open>waitForCompletion\<close> catches the error and resolves to a failure with the message of
  the error and empty logs.
\<close>

theorem incomplete_header_raises:
  assumes "\<forall>r\<in>set rs. length (payload r) < 2 ^ 32"
    and "0 < length trailing" and "length trailing < 8"
  shows "demux decode (frames rs @ trailing) 0 [] = Inl RangeError
       \<and> waitForCompletion decode (Exited StatusCode (frames rs @ trailing)) =
           \<lparr> success = False, error = Some (MessageOf RangeError), logs = [] \<rparr>"
proof -
  have d: "demux decode (frames rs @ trailing) 0 [] = Inl RangeError"
    using demux_frames [OF assms(1), of decode "[]" trailing "[]"] assms(2,3)
    by (simp add: demux_short_header)
  then show ?thesis
    by (simp add: waitForCompletion_def)
qed

theorem incomplete_header_raises_witness:
  "demux ascii ([1, 0, 0, 0, 0, 0, 0, 2, 0x68, 0x69] @ [2, 0, 0, 0, 0]) 0 [] = Inl RangeError
   \<and> waitForCompletion ascii (Exited 0 ([1, 0, 0, 0, 0, 0, 0, 2, 0x68, 0x69] @ [2, 0, 0, 0, 0])) =
       \<lparr> success = False, error = Some (MessageOf RangeError), logs = [] \<rparr>"
proof -
  let ?rs = "[\<lparr>stream_type = 1, reserved = (0, 0, 0), payload = [0x68, 0x69 :: byte]\<rparr>]"
  have f: "frames ?rs = [1, 0, 0, 0, 0, 0, 0, 2, 0x68, 0x69]"
    by (simp add: frames_def frame_def be32_def)
  have h: "\<forall>r\<in>set ?rs. length (payload r) < 2 ^ 32"
    by simp
  have t: "0 < length [2, 0, 0, 0, 0 :: byte]" "length [2, 0, 0, 0, 0 :: byte] < 8"
    by simp_all
  show ?thesis
    using incomplete_header_raises [OF h t, of ascii 0] unfolding f .
qed

text \<open>
  The claim as the specification states it fails: the log of a sandbox that wrote
  \<open>hi\<close>, cut off after three bytes of the next header, is not decoded to \<open>hi\<close>; the
  loop raises, and the result carries no logs.
\<close>

theorem incomplete_header_counterexample:
  "demux ascii [1, 0, 0, 0, 0, 0, 0, 2, 0x68, 0x69, 1, 0, 0] 0 [] \<noteq> Inr (js ''hi'')
   \<and> demux ascii [1, 0, 0, 0, 0, 0, 0, 2, 0x68, 0x69, 1, 0, 0] 0 [] = Inl RangeError
   \<and> logs (waitForCompletion ascii (Exited 0 [1, 0, 0, 0, 0, 0, 0, 2, 0x68, 0x69, 1, 0, 0])) = []"
proof -
  have d: "demux ascii [1, 0, 0, 0, 0, 0, 0, 2, 0x68, 0x69, 1, 0, 0] 0 [] = Inl RangeError"
    by (simp add: demux.simps readUInt32BE_def slice_def)
  then show ?thesis
    by (simp add: waitForCompletion_def)
qed

section \<open>The artifact collector\<close>

lemma split_no_sep: "sep \<notin> set s \<Longrightarrow> split s sep = [s]"
  by (induction s) auto

lemma split_with_sep: "sep \<in> set s \<Longrightarrow> \<exists>p q qs. split s sep = p # q # qs"
proof (induction s)
  case Nil
  then show ?case by simp
next
  case (Cons c cs)
  show ?case
  proof (cases "sep \<in> set cs")
    case True
    with Cons.IH obtain p q qs where "split cs sep = p # q # qs" by blast
    then show ?thesis by auto
  next
    case False
    with Cons.prems have "c = sep" by simp
    with False show ?thesis by (simp add: split_no_sep)
  qed
qed

lemma last_split: "last (split s sep) = rev (takeWhile (\<lambda>c. c \<noteq> sep) (rev s))"
proof (induction s)
  case Nil
  show ?case by simp
next
  case (Cons c cs)
  show ?case
  proof (cases "sep \<in> set cs")
    case True
    then have t: "takeWhile (\<lambda>c. c \<noteq> sep) (rev cs @ [c]) = takeWhile (\<lambda>c. c \<noteq> sep) (rev cs)"
      by (intro takeWhile_append1 [of sep]) auto
    from True obtain p q qs where s: "split cs sep = p # q # qs"
      using split_with_sep by blast
    show ?thesis
      using Cons.IH by (simp add: t s)
  next
    case False
    then have t: "takeWhile (\<lambda>c. c \<noteq> sep) (rev cs @ [c]) = rev cs @ takeWhile (\<lambda>c. c \<noteq> sep) [c]"
      by (intro takeWhile_append2) auto
    from False have r: "takeWhile (\<lambda>c. c \<noteq> sep) (rev cs) = rev cs"
      by (intro takeWhile_eq_all_conv [THEN iffD2]) auto
    show ?thesis
      using Cons.IH False by (simp add: t r split_no_sep)
  qed
qed

lemma filename_of_base_name: "filename_of e = base_name (header_name e)"
  by (simp add: filename_of_def base_name_def last_split)

lemma seq_lit_at_end: "seq (lit t) at_end s \<noteq> None \<longleftrightarrow> s = t"
proof
  assume "seq (lit t) at_end s \<noteq> None"
  then have "prefix t s" and "drop (length t) s = []"
    by (auto simp: seq_def lit_def at_end_def split: if_splits option.splits)
  then show "s = t"
    by (auto simp: prefix_def)
next
  assume "s = t"
  then show "seq (lit t) at_end s \<noteq> None"
    by (simp add: seq_def lit_def at_end_def)
qed

lemma alt_matches: "alt m1 m2 s \<noteq> None \<longleftrightarrow> m1 s \<noteq> None \<or> m2 s \<noteq> None"
  by (auto simp: alt_def split: option.splits)

lemma seq_char_matches: "seq (lit [c]) m s \<noteq> None \<longleftrightarrow> (\<exists>r. s = c # r \<and> m r \<noteq> None)"
  by (cases s) (auto simp: seq_def lit_def split: option.splits)

lemma extension_re_matches:
  "extension_re s \<noteq> None \<longleftrightarrow> s \<in> {js ''.js'', js ''.css'', js ''.html'', js ''.map''}"
proof -
  have d: "js ''.'' = [0x2E]"
    by (simp add: js_def)
  have "extension_re s \<noteq> None \<longleftrightarrow>
      (\<exists>r. s = 0x2E # r \<and> (r = js ''js'' \<or> r = js ''css'' \<or> r = js ''html'' \<or> r = js ''map''))"
    by (simp only: extension_re_def d seq_char_matches alt_matches seq_lit_at_end)
  also have "\<dots> \<longleftrightarrow> s \<in> {js ''.js'', js ''.css'', js ''.html'', js ''.map''}"
    by (auto simp: js_def)
  finally show ?thesis .
qed

lemma test_suffix:
  assumes "\<And>s. m s \<noteq> None \<longleftrightarrow> s \<in> T" and "[] \<notin> T"
  shows "test m s \<longleftrightarrow> (\<exists>t\<in>T. suffix t s)"
proof (induction s)
  case Nil
  show ?case using assms by auto
next
  case (Cons c cs)
  show ?case
    using assms Cons.IH by (auto simp: suffix_Cons)
qed

lemma test_extension_re: "test extension_re s = has_output_extension s"
proof -
  let ?T = "{js ''.js'', js ''.css'', js ''.html'', js ''.map''}"
  have "[] \<notin> ?T"
    by (simp add: js_def)
  with extension_re_matches have "test extension_re s \<longleftrightarrow> (\<exists>t\<in>?T. suffix t s)"
    by (rule test_suffix)
  then show ?thesis
    by (simp add: has_output_extension_def endsWith_def)
qed

lemma on_entry_retained:
  "on_entry decode e fs =
     (if retained e then AList.update (base_name (header_name e)) (body_text decode e) fs else fs)"
  by (simp add: on_entry_def retained_def test_extension_re filename_of_base_name body_text_def
      Let_def)

lemma distinct_on_entry: "distinct (map fst fs) \<Longrightarrow> distinct (map fst (on_entry decode e fs))"
  by (simp add: on_entry_retained distinct_update)

lemma distinct_fold_on_entry:
  "distinct (map fst fs) \<Longrightarrow> distinct (map fst (fold (on_entry decode) es fs))"
  by (induction es arbitrary: fs) (simp_all add: distinct_on_entry)

lemma map_of_on_entry:
  "map_of (on_entry decode e fs) k =
     (if retained e \<and> base_name (header_name e) = k then Some (body_text decode e) else map_of fs k)"
  by (simp add: on_entry_retained update_conv')

lemma map_of_fold_on_entry:
  "map_of (fold (on_entry decode) es fs) k =
     (case filter (\<lambda>e. retained e \<and> base_name (header_name e) = k) es of
        [] \<Rightarrow> map_of fs k
      | x # xs \<Rightarrow> Some (body_text decode (last (x # xs))))"
proof (induction es arbitrary: fs)
  case Nil
  show ?case by simp
next
  case (Cons e es)
  let ?P = "\<lambda>e. retained e \<and> base_name (header_name e) = k"
  have "map_of (fold (on_entry decode) (e # es) fs) k =
      map_of (fold (on_entry decode) es (on_entry decode e fs)) k"
    by simp
  also have "\<dots> = (case filter ?P es of
        [] \<Rightarrow> map_of (on_entry decode e fs) k
      | x # xs \<Rightarrow> Some (body_text decode (last (x # xs))))"
    by (rule Cons.IH)
  also have "\<dots> = (case filter ?P (e # es) of
        [] \<Rightarrow> map_of fs k
      | x # xs \<Rightarrow> Some (body_text decode (last (x # xs))))"
    by (cases "?P e") (auto simp: map_of_on_entry split: list.splits)
  finally show ?case .
qed

lemma keys_fold_on_entry:
  "fst ` set (fold (on_entry decode) es []) =
     (\<lambda>e. base_name (header_name e)) ` {e \<in> set es. retained e}"
proof -
  have "k \<in> fst ` set (fold (on_entry decode) es []) \<longleftrightarrow>
      k \<in> (\<lambda>e. base_name (header_name e)) ` {e \<in> set es. retained e}" for k
  proof -
    have "k \<in> fst ` set (fold (on_entry decode) es []) \<longleftrightarrow>
        map_of (fold (on_entry decode) es []) k \<noteq> None"
      by (simp add: map_of_eq_None_iff)
    also have "\<dots> \<longleftrightarrow> filter (\<lambda>e. retained e \<and> base_name (header_name e) = k) es \<noteq> []"
      by (simp add: map_of_fold_on_entry split: list.splits)
    also have "\<dots> \<longleftrightarrow> k \<in> (\<lambda>e. base_name (header_name e)) ` {e \<in> set es. retained e}"
      by (auto simp: filter_empty_conv)
    finally show ?thesis .
  qed
  then show ?thesis by blast
qed

text \<open>
  Claim C9. For every archive that is read to its end, the collector's object has an
  entry exactly for the base names of the retained members, those of type \<open>file\<close>
  whose base name (the final segment of the path) ends, with matching case, in
  \<open>.js\<close>, \<open>.css\<close>, \<open>.html\<close> or \<open>.map\<close>. Every other member is dropped, no key occurs
  twice, and the value under a key is the decoded body of the last retained member with
  that base name.
\<close>

theorem collector_keeps_output_files:
  "extractCompiledFiles decode (ExtractFinished es) = Inr (fold (on_entry decode) es [])
   \<and> distinct (map fst (fold (on_entry decode) es []))
   \<and> fst ` set (fold (on_entry decode) es []) =
        (\<lambda>e. base_name (header_name e)) ` {e \<in> set es. retained e}
   \<and> map_of (fold (on_entry decode) es []) k =
        (case filter (\<lambda>e. retained e \<and> base_name (header_name e) = k) es of
           [] \<Rightarrow> None
         | x # xs \<Rightarrow> Some (body_text decode (last (x # xs))))"
proof -
  have "map_of (fold (on_entry decode) es []) k =
        (case filter (\<lambda>e. retained e \<and> base_name (header_name e) = k) es of
           [] \<Rightarrow> None
         | x # xs \<Rightarrow> Some (body_text decode (last (x # xs))))"
    by (simp add: map_of_fold_on_entry split: list.splits)
  then show ?thesis
    by (simp add: extractCompiledFiles_def distinct_fold_on_entry keys_fold_on_entry)
qed

lemma example_collected:
  "fold (on_entry ascii) example_archive [] = [(js ''a.js'', js ''45''), (js ''c.html'', js ''3'')]"
  by (simp add: example_archive_def on_entry_def filename_of_def extension_re_def seq_def lit_def alt_def at_end_def js_def ascii_def AList.update.simps)

theorem collector_keeps_output_files_witness:
  "extractCompiledFiles ascii (ExtractFinished example_archive) =
     Inr [(js ''a.js'', js ''45''), (js ''c.html'', js ''3'')]
   \<and> fst ` set [(js ''a.js'', js ''45''), (js ''c.html'', js ''3'')] =
        (\<lambda>e. base_name (header_name e)) ` {e \<in> set example_archive. retained e}"
  using collector_keeps_output_files [of ascii example_archive "js ''a.js''"]
  unfolding example_collected by simp

section \<open>The handler\<close>

lemma try_block_cases:
  "try_block decode sb framework config code t limits = (r, evs, container) \<Longrightarrow>
     (container \<longleftrightarrow> create_error sb = None)
     \<and> ContainerRemove \<notin> set evs
     \<and> (\<forall>e. CleanupErrorLogged e \<notin> set evs)
     \<and> (\<exists>spec rest. evs = ContainerCreate spec # rest)"
  by (auto simp: try_block_def Let_def split: option.splits if_splits sum.splits)

lemma try_block_remove_error:
  "try_block decode (sb\<lparr>remove_error := x\<rparr>) framework config code t limits =
   try_block decode sb framework config code t limits"
  by (simp add: try_block_def Let_def split: option.splits sum.splits)

lemma compile_remove_error:
  "fst (compile decode st (sb\<lparr>remove_error := x\<rparr>) req) = fst (compile decode st sb req)"
  by (simp add: compile_def try_block_remove_error split: validation.splits prod.splits)

text \<open>
  Claim C1. In every run of the handler in which the container was created (the call
  was made and did not reject), the container is removed exactly once, whatever the
  outcome: the removal is the last call to the runtime, followed at most by the log
  line of its own failure; a response is sent; and the response is the same whether
  the removal succeeds or fails.
\<close>

theorem container_removed_exactly_once:
  assumes "compile decode st sb req = (resp, evs)"
    and "ContainerCreate spec \<in> set evs" and "create_error sb = None"
  shows "count_list evs ContainerRemove = 1
       \<and> dropWhile (\<lambda>e. e \<noteq> ContainerRemove) evs =
           ContainerRemove # (case remove_error sb of None \<Rightarrow> [] | Some e \<Rightarrow> [CleanupErrorLogged e])
       \<and> resp \<noteq> None
       \<and> fst (compile decode st (sb\<lparr>remove_error := x\<rparr>) req) = resp"
proof -
  from assms(1,2) obtain framework config code t limits where
    v: "validate st req = Accepted framework config code t limits"
    by (auto simp: compile_def split: validation.splits)
  obtain r tevs container where
    tb: "try_block decode sb framework config code t limits = (r, tevs, container)"
    by (cases "try_block decode sb framework config code t limits") auto
  from try_block_cases [OF tb] assms(3) have c: container
    and nr: "ContainerRemove \<notin> set tevs" and nl: "\<forall>e. CleanupErrorLogged e \<notin> set tevs"
    by auto
  from assms(1) v tb c have resp: "resp = Some (catch_block r)"
    and evs: "evs = tevs @ finally_block sb True"
    by (auto simp: compile_def)
  have cnt: "count_list tevs ContainerRemove = 0"
    using nr by (simp add: count_list_0_iff)
  have dw: "dropWhile (\<lambda>e. e \<noteq> ContainerRemove) (tevs @ ys) = dropWhile (\<lambda>e. e \<noteq> ContainerRemove) ys" for ys
    using nr by (intro dropWhile_append2) auto
  have 1: "count_list evs ContainerRemove = 1"
    by (simp add: evs cnt finally_block_def split: option.splits)
  have 2: "dropWhile (\<lambda>e. e \<noteq> ContainerRemove) evs =
           ContainerRemove # (case remove_error sb of None \<Rightarrow> [] | Some e \<Rightarrow> [CleanupErrorLogged e])"
    by (simp add: evs dw finally_block_def)
  have 3: "fst (compile decode st (sb\<lparr>remove_error := x\<rparr>) req) = resp"
    using assms(1) by (simp add: compile_remove_error)
  from 1 2 3 resp show ?thesis by simp
qed

text \<open>When the creation of the container rejects, nothing is removed.\<close>

lemma no_container_no_removal:
  assumes "compile decode st sb req = (resp, evs)" and "create_error sb \<noteq> None"
  shows "count_list evs ContainerRemove = 0"
  using assms
  by (auto simp: compile_def try_block_def finally_block_def Let_def
      split: validation.splits option.splits)

lemma lower_react: "toLowerCase (js ''react'') = js ''react''"
  by (simp add: toLowerCase_def lower_char_def js_def)

lemma validate_react_request:
  "validate default_state react_request =
     Accepted (js ''react'') (Profile react_profile) (js ''export default 1'') (Fin 60000)
       \<lparr>memory = Fin 2147483648, cpuPeriod = Fin 100000, cpuQuota = Fin 200000\<rparr>"
proof -
  have f: "FRAMEWORKS (js ''react'') = Some (Profile react_profile)"
    by (simp add: FRAMEWORKS_def js_def)
  have c: "js ''export default 1'' \<noteq> []"
    by (simp add: js_def)
  show ?thesis
    by (simp add: validate_def default_state_def react_request_def lower_react f c or_default_def
        not_positive_def)
qed

lemma compile_creates:
  assumes "validate st req = Accepted framework config code t limits"
  shows "ContainerCreate (createCompilationContainer (compilationId sb) code config framework limits)
           \<in> set (snd (compile decode st sb req))"
  using assms
  by (simp add: compile_def try_block_def Let_def split: option.splits sum.splits)

text \<open>The four outcomes at the example job: success, failed build, deadline, and a
  start that fails with a removal that fails too.\<close>

theorem container_removed_exactly_once_witness:
  "count_list (snd (compile ascii default_state example_sandbox react_request)) ContainerRemove = 1
   \<and> count_list (snd (compile ascii default_state
        (example_sandbox\<lparr>completion := Exited 1 []\<rparr>) react_request)) ContainerRemove = 1
   \<and> count_list (snd (compile ascii default_state
        (example_sandbox\<lparr>completion := DeadlineFirst\<rparr>) react_request)) ContainerRemove = 1
   \<and> count_list (snd (compile ascii default_state
        (example_sandbox\<lparr>start_error := Some (Thrown (js ''no such image'')),
           remove_error := Some (Thrown (js ''gone''))\<rparr>) react_request)) ContainerRemove = 1
   \<and> fst (compile ascii default_state
        (example_sandbox\<lparr>start_error := Some (Thrown (js ''no such image'')),
           remove_error := Some (Thrown (js ''gone''))\<rparr>) react_request) =
       fst (compile ascii default_state
        (example_sandbox\<lparr>start_error := Some (Thrown (js ''no such image''))\<rparr>) react_request)"
proof -
  let ?run = "\<lambda>sb. compile ascii default_state sb react_request"
  have once: "count_list (snd (?run sb)) ContainerRemove = 1
      \<and> fst (?run (sb\<lparr>remove_error := x\<rparr>)) = fst (?run sb)"
    if "create_error sb = None" for sb x
    using container_removed_exactly_once [OF prod.collapse [symmetric]
        compile_creates [OF validate_react_request] that, of ascii x]
    by simp
  have 1: "create_error example_sandbox = None"
    by (simp add: example_sandbox_def)
  let ?sb = "example_sandbox\<lparr>start_error := Some (Thrown (js ''no such image''))\<rparr>"
  have "fst (?run (?sb\<lparr>remove_error := Some (Thrown (js ''gone''))\<rparr>)) = fst (?run ?sb)"
    using once [of ?sb] 1 by simp
  moreover have "count_list (snd (?run (?sb\<lparr>remove_error := Some (Thrown (js ''gone''))\<rparr>))) ContainerRemove = 1"
    using once [of "?sb\<lparr>remove_error := Some (Thrown (js ''gone''))\<rparr>"] 1 by simp
  ultimately show ?thesis
    using once [of example_sandbox] once [of "example_sandbox\<lparr>completion := Exited 1 []\<rparr>"]
      once [of "example_sandbox\<lparr>completion := DeadlineFirst\<rparr>"] 1
    by simp
qed

lemma response_when_wait_fails:
  assumes "validate st req = Accepted framework config code t limits"
    and "create_error sb = None" and "start_error sb = None"
    and "\<not> success (waitForCompletion decode (completion sb))"
  shows "fst (compile decode st sb req) =
    Some (Failure BAD_REQUEST (Text (toUpperCase framework @ js '' Build Failed''))
           (Some (logs (waitForCompletion decode (completion sb)))))"
  using assms by (simp add: compile_def try_block_def Let_def catch_block_def)

lemma response_when_wait_succeeds:
  assumes "validate st req = Accepted framework config code t limits"
    and "create_error sb = None" and "start_error sb = None"
    and "success (waitForCompletion decode (completion sb))"
  shows "fst (compile decode st sb req) =
    Some (case extractCompiledFiles decode (archive sb) of
            Inl e \<Rightarrow> Failure INTERNAL_SERVER_ERROR (MessageOf e) None
          | Inr compiledFiles \<Rightarrow> Success framework compiledFiles (duration sb))"
  using assms by (simp add: compile_def try_block_def Let_def catch_block_def split: sum.splits)

lemma upper_react: "toUpperCase (js ''react'') = js ''REACT''"
  by (simp add: toUpperCase_def upper_char_def js_def)

text \<open>
  Claim C3, as the code has it. When the deadline fires first, \<open>waitForCompletion\<close>
  resolves to a failure with the error \<open>Compilation timeout\<close> and empty logs, and no
  transcript is collected. The handler does not pass this error on: the response has
  status 400, the error text of a failed build (the upper-case framework name followed
  by \<open>Build Failed\<close>) and empty logs, and is the same response as for a build that
  exits with status 1 without output.
\<close>

theorem deadline_reported_as_build_failure:
  assumes "validate st req = Accepted framework config code t limits"
    and "create_error sb = None" and "start_error sb = None"
    and "completion sb = DeadlineFirst"
  shows "waitForCompletion decode (completion sb) =
           \<lparr> success = False, error = Some (Text (js ''Compilation timeout'')), logs = [] \<rparr>
       \<and> fst (compile decode st sb req) =
           Some (Failure BAD_REQUEST (Text (toUpperCase framework @ js '' Build Failed'')) (Some []))
       \<and> fst (compile decode st (sb\<lparr>completion := Exited 1 []\<rparr>) req) = fst (compile decode st sb req)"
proof -
  have w: "waitForCompletion decode (completion sb) =
           \<lparr> success = False, error = Some (Text (js ''Compilation timeout'')), logs = [] \<rparr>"
    by (simp add: assms(4) waitForCompletion_def)
  have b: "waitForCompletion decode (Exited 1 []) =
           \<lparr> success = False, error = Some (Text (js ''Build Failed'')), logs = [] \<rparr>"
    by (simp add: waitForCompletion_def demux_end)
  have 1: "fst (compile decode st sb req) =
           Some (Failure BAD_REQUEST (Text (toUpperCase framework @ js '' Build Failed'')) (Some []))"
    using response_when_wait_fails [OF assms(1,2,3), of decode] by (simp add: w)
  have 2: "fst (compile decode st (sb\<lparr>completion := Exited 1 []\<rparr>) req) =
           Some (Failure BAD_REQUEST (Text (toUpperCase framework @ js '' Build Failed'')) (Some []))"
    using response_when_wait_fails [OF assms(1), of "sb\<lparr>completion := Exited 1 []\<rparr>" decode] assms(2,3)
    by (simp add: b)
  from w 1 2 show ?thesis by simp
qed

theorem deadline_reported_as_build_failure_witness:
  "waitForCompletion ascii DeadlineFirst =
      \<lparr> success = False, error = Some (Text (js ''Compilation timeout'')), logs = [] \<rparr>
   \<and> fst (compile ascii default_state (example_sandbox\<lparr>completion := DeadlineFirst\<rparr>) react_request) =
       Some (Failure BAD_REQUEST (Text (js ''REACT Build Failed'')) (Some []))"
proof -
  let ?sb = "example_sandbox\<lparr>completion := DeadlineFirst\<rparr>"
  have h: "create_error ?sb = None" "start_error ?sb = None" "completion ?sb = DeadlineFirst"
    by (simp_all add: example_sandbox_def)
  have u: "toUpperCase (js ''react'') @ js '' Build Failed'' = js ''REACT Build Failed''"
    unfolding upper_react by (simp add: js_def)
  show ?thesis
    using deadline_reported_as_build_failure [OF validate_react_request h, of ascii]
    by (simp add: u)
qed

text \<open>
  The claim as the specification states it fails: the response after the deadline and
  the response after a failed build without output are the same, so the error of the
  response does not tell a timeout from a build failure.
\<close>

theorem deadline_not_distinguished_counterexample:
  "fst (compile ascii default_state (example_sandbox\<lparr>completion := DeadlineFirst\<rparr>) react_request) =
     Some (Failure BAD_REQUEST (Text (js ''REACT Build Failed'')) (Some []))
   \<and> fst (compile ascii default_state (example_sandbox\<lparr>completion := Exited 1 []\<rparr>) react_request) =
     Some (Failure BAD_REQUEST (Text (js ''REACT Build Failed'')) (Some []))"
proof -
  have u: "toUpperCase (js ''react'') @ js '' Build Failed'' = js ''REACT Build Failed''"
    unfolding upper_react by (simp add: js_def)
  have 1: "fst (compile ascii default_state (example_sandbox\<lparr>completion := DeadlineFirst\<rparr>) react_request) =
     Some (Failure BAD_REQUEST (Text (js ''REACT Build Failed'')) (Some []))"
    using response_when_wait_fails [OF validate_react_request,
        of "example_sandbox\<lparr>completion := DeadlineFirst\<rparr>" ascii]
    by (simp add: example_sandbox_def waitForCompletion_def u)
  have 2: "fst (compile ascii default_state (example_sandbox\<lparr>completion := Exited 1 []\<rparr>) react_request) =
     Some (Failure BAD_REQUEST (Text (js ''REACT Build Failed'')) (Some []))"
    using response_when_wait_fails [OF validate_react_request,
        of "example_sandbox\<lparr>completion := Exited 1 []\<rparr>" ascii]
    by (simp add: example_sandbox_def waitForCompletion_def demux_end u)
  from 1 2 show ?thesis by simp
qed

lemma wait_example:
  "waitForCompletion ascii (Exited 0 completed_log) =
     \<lparr> success = True, error = None, logs = js ''COMPILATION_COMPLETE'' \<rparr>"
proof -
  let ?r = "\<lparr> stream_type = 1, reserved = (0, 0, 0), payload = map of_char ''COMPILATION_COMPLETE'' \<rparr>"
  have h: "\<forall>r\<in>set [?r]. length (payload r) < 2 ^ 32"
    by simp
  have "demux ascii completed_log 0 [] = Inr (ascii (map of_char ''COMPILATION_COMPLETE''))"
    using demux_frames [OF h, of ascii "[]" "[]" "[]"]
    by (simp add: completed_log_def demux_end)
  moreover have "ascii (map of_char ''COMPILATION_COMPLETE'') = js ''COMPILATION_COMPLETE''"
    by (simp add: ascii_def js_def)
  moreover have "includes_str (js ''COMPILATION_COMPLETE'') (js ''COMPILATION_COMPLETE'')"
    by (simp add: js_def)
  ultimately show ?thesis
    by (simp add: waitForCompletion_def)
qed

text \<open>
  Claim C6 at its failing input. When the extraction emits an error, the collector
  does not return the empty object: it rejects, and the handler answers with status
  500 and the message of the error. Only a rejection of \<open>getArchive\<close> itself gives
  the empty object and a successful response.
\<close>

theorem extraction_error_answers_500:
  "extractCompiledFiles ascii (ExtractError [] (Thrown (js ''Invalid tar header''))) =
     Inl (Thrown (js ''Invalid tar header''))
   \<and> fst (compile ascii default_state
        (example_sandbox\<lparr>archive := ExtractError [] (Thrown (js ''Invalid tar header''))\<rparr>)
        react_request) =
       Some (Failure INTERNAL_SERVER_ERROR (MessageOf (Thrown (js ''Invalid tar header''))) None)
   \<and> fst (compile ascii default_state
        (example_sandbox\<lparr>archive := GetArchiveRejects (Thrown (js ''no such path''))\<rparr>)
        react_request) =
       Some (Success (js ''react'') [] 1234)"
proof -
  have 1: "fst (compile ascii default_state
        (example_sandbox\<lparr>archive := ExtractError [] (Thrown (js ''Invalid tar header''))\<rparr>)
        react_request) =
       Some (Failure INTERNAL_SERVER_ERROR (MessageOf (Thrown (js ''Invalid tar header''))) None)"
    using response_when_wait_succeeds [OF validate_react_request,
        of "example_sandbox\<lparr>archive := ExtractError [] (Thrown (js ''Invalid tar header''))\<rparr>" ascii]
    by (simp add: example_sandbox_def wait_example extractCompiledFiles_def)
  have 2: "fst (compile ascii default_state
        (example_sandbox\<lparr>archive := GetArchiveRejects (Thrown (js ''no such path''))\<rparr>)
        react_request) =
       Some (Success (js ''react'') [] 1234)"
    using response_when_wait_succeeds [OF validate_react_request,
        of "example_sandbox\<lparr>archive := GetArchiveRejects (Thrown (js ''no such path''))\<rparr>" ascii]
    by (simp add: example_sandbox_def wait_example extractCompiledFiles_def)
  from 1 2 show ?thesis by (simp add: extractCompiledFiles_def)
qed

lemma compile_rejected:
  "validate st req = Rejected resp \<Longrightarrow> compile decode st sb req = (Some resp, [])"
  by (simp add: compile_def)

lemma validate_timeout:
  assumes "req_framework req \<noteq> OtherValue" and "invalid_override (req_timeout req)"
  shows "validate st req = Rejected (Failure BAD_REQUEST (Text timeout_message) None)"
  using assms
  by (cases "req_framework req")
    (auto simp: validate_def invalid_override_def or_default_def Let_def split: option.splits)

lemma validate_limits:
  assumes "req_framework req \<noteq> OtherValue"
    and "invalid_override (req_memory req) \<or> invalid_override (req_cpuPeriod req)
          \<or> invalid_override (req_cpuQuota req)"
  shows "\<exists>msg. validate st req = Rejected (Failure BAD_REQUEST (Text msg) None)
      \<and> (msg = limits_message \<or> msg = timeout_message \<or> msg = code_message
          \<or> (\<exists>s. msg = unsupported_message s))"
  using assms
  by (cases "req_framework req")
    (auto simp: validate_def invalid_override_def or_default_def Let_def split: option.splits)

lemma validate_limits_only:
  assumes "req_framework req = StringValue s \<or> (req_framework req = Undefined \<and> s = js ''angular'')"
    and "\<not> not_positive (or_default (req_timeout req) (DEFAULT_COMPILE_TIMEOUT_MS st))"
    and "FRAMEWORKS (toLowerCase s) \<noteq> None"
    and "req_code req = Some code" and "code \<noteq> []"
    and "invalid_override (req_memory req) \<or> invalid_override (req_cpuPeriod req)
          \<or> invalid_override (req_cpuQuota req)"
  shows "validate st req = Rejected (Failure BAD_REQUEST (Text limits_message) None)"
  using assms
  by (auto simp: validate_def invalid_override_def or_default_def Let_def split: option.splits)

lemma validate_limits_first:
  assumes "req_framework req = StringValue s \<or> (req_framework req = Undefined \<and> s = js ''angular'')"
    and "invalid_override (req_memory req) \<or> invalid_override (req_cpuPeriod req)
          \<or> invalid_override (req_cpuQuota req)"
  shows "validate st req =
     Rejected (Failure BAD_REQUEST
       (Text (if not_positive (or_default (req_timeout req) (DEFAULT_COMPILE_TIMEOUT_MS st))
              then timeout_message
              else if FRAMEWORKS (toLowerCase s) = None then unsupported_message s
              else if req_code req = None \<or> req_code req = Some [] then code_message
              else limits_message))
       None)"
  using assms
  by (auto simp: validate_def invalid_override_def or_default_def Let_def split: option.splits)

lemma limits_message_names:
  "includes_str limits_message (js ''memory'') \<and> includes_str limits_message (js ''cpuPeriod'')
   \<and> includes_str limits_message (js ''cpuQuota'')"
  by (simp add: limits_message_def js_def)

lemma timeout_message_names:
  "includes_str timeout_message (js ''timeout'') \<and> \<not> includes_str timeout_message (js ''memory'')
   \<and> \<not> includes_str timeout_message (js ''cpuPeriod'') \<and> \<not> includes_str timeout_message (js ''cpuQuota'')"
  by (simp add: timeout_message_def js_def)

text \<open>
  Claim C4, as the code has it, for a request whose framework is a string or absent.
  A timeout that is present and not a positive number is rejected with status 400 and
  the message that names the timeout, whatever the other fields are. A \<open>memory\<close>,
  \<open>cpuPeriod\<close> or \<open>cpuQuota\<close> that is present and not a positive number is rejected with
  status 400 before any call to the runtime, whatever the other fields are; the message
  is the one of the first check that fails, in the order timeout, framework, code,
  limits: the message for the timeout when the timeout in effect is not positive,
  else the message for the unsupported framework when the lookup finds nothing, else
  the message for the code when the code is absent, not a string or empty, else the one
  message for the limits, which names all three fields.
\<close>

theorem invalid_override_rejected:
  assumes "req_framework req \<noteq> OtherValue"
  shows "(invalid_override (req_timeout req) \<longrightarrow>
            compile decode st sb req = (Some (Failure BAD_REQUEST (Text timeout_message) None), []))
       \<and> includes_str timeout_message (js ''timeout'')
       \<and> (invalid_override (req_memory req) \<or> invalid_override (req_cpuPeriod req)
            \<or> invalid_override (req_cpuQuota req) \<longrightarrow>
            (\<exists>msg. compile decode st sb req = (Some (Failure BAD_REQUEST (Text msg) None), [])
               \<and> (msg = limits_message \<or> msg = timeout_message \<or> msg = code_message
                    \<or> (\<exists>s. msg = unsupported_message s))))
       \<and> ((invalid_override (req_memory req) \<or> invalid_override (req_cpuPeriod req)
            \<or> invalid_override (req_cpuQuota req))
           \<and> (req_framework req = StringValue s \<or> req_framework req = Undefined \<and> s = js ''angular'')
           \<longrightarrow>
            compile decode st sb req =
              (Some (Failure BAD_REQUEST
                 (Text (if not_positive (or_default (req_timeout req) (DEFAULT_COMPILE_TIMEOUT_MS st))
                        then timeout_message
                        else if FRAMEWORKS (toLowerCase s) = None then unsupported_message s
                        else if req_code req = None \<or> req_code req = Some [] then code_message
                        else limits_message))
                 None), []))
       \<and> ((invalid_override (req_memory req) \<or> invalid_override (req_cpuPeriod req)
            \<or> invalid_override (req_cpuQuota req))
           \<and> (req_framework req = StringValue s \<or> req_framework req = Undefined \<and> s = js ''angular'')
           \<and> \<not> not_positive (or_default (req_timeout req) (DEFAULT_COMPILE_TIMEOUT_MS st))
           \<and> FRAMEWORKS (toLowerCase s) \<noteq> None
           \<and> req_code req = Some code \<and> code \<noteq> [] \<longrightarrow>
            compile decode st sb req = (Some (Failure BAD_REQUEST (Text limits_message) None), []))
       \<and> includes_str limits_message (js ''memory'')
       \<and> includes_str limits_message (js ''cpuPeriod'')
       \<and> includes_str limits_message (js ''cpuQuota'')"
proof -
  have 1: "invalid_override (req_timeout req) \<longrightarrow>
            compile decode st sb req = (Some (Failure BAD_REQUEST (Text timeout_message) None), [])"
    using validate_timeout [OF assms] by (simp add: compile_rejected)
  have 2: "invalid_override (req_memory req) \<or> invalid_override (req_cpuPeriod req)
            \<or> invalid_override (req_cpuQuota req) \<longrightarrow>
            (\<exists>msg. compile decode st sb req = (Some (Failure BAD_REQUEST (Text msg) None), [])
               \<and> (msg = limits_message \<or> msg = timeout_message \<or> msg = code_message
                    \<or> (\<exists>s. msg = unsupported_message s)))"
  proof
    assume "invalid_override (req_memory req) \<or> invalid_override (req_cpuPeriod req)
            \<or> invalid_override (req_cpuQuota req)"
    from validate_limits [OF assms this, of st] obtain msg where
      "validate st req = Rejected (Failure BAD_REQUEST (Text msg) None)"
      "msg = limits_message \<or> msg = timeout_message \<or> msg = code_message
          \<or> (\<exists>s. msg = unsupported_message s)"
      by blast
    then show "\<exists>msg. compile decode st sb req = (Some (Failure BAD_REQUEST (Text msg) None), [])
               \<and> (msg = limits_message \<or> msg = timeout_message \<or> msg = code_message
                    \<or> (\<exists>s. msg = unsupported_message s))"
      by (auto simp: compile_rejected)
  qed
  have 3: "(invalid_override (req_memory req) \<or> invalid_override (req_cpuPeriod req)
            \<or> invalid_override (req_cpuQuota req))
           \<and> (req_framework req = StringValue s \<or> req_framework req = Undefined \<and> s = js ''angular'')
           \<and> \<not> not_positive (or_default (req_timeout req) (DEFAULT_COMPILE_TIMEOUT_MS st))
           \<and> FRAMEWORKS (toLowerCase s) \<noteq> None
           \<and> req_code req = Some code \<and> code \<noteq> [] \<longrightarrow>
            compile decode st sb req = (Some (Failure BAD_REQUEST (Text limits_message) None), [])"
    using validate_limits_only [of req s st code] by (auto simp: compile_rejected)
  have 4: "(invalid_override (req_memory req) \<or> invalid_override (req_cpuPeriod req)
            \<or> invalid_override (req_cpuQuota req))
           \<and> (req_framework req = StringValue s \<or> req_framework req = Undefined \<and> s = js ''angular'')
           \<longrightarrow>
            compile decode st sb req =
              (Some (Failure BAD_REQUEST
                 (Text (if not_positive (or_default (req_timeout req) (DEFAULT_COMPILE_TIMEOUT_MS st))
                        then timeout_message
                        else if FRAMEWORKS (toLowerCase s) = None then unsupported_message s
                        else if req_code req = None \<or> req_code req = Some [] then code_message
                        else limits_message))
                 None), [])"
    using validate_limits_first [of req s st] by (simp add: compile_rejected)
  from 1 2 3 4 limits_message_names timeout_message_names show ?thesis
    by blast
qed

theorem invalid_override_rejected_witness:
  "compile ascii default_state example_sandbox (react_request\<lparr>req_timeout := Some NaN\<rparr>) =
     (Some (Failure BAD_REQUEST (Text timeout_message) None), [])
   \<and> compile ascii default_state example_sandbox (react_request\<lparr>req_memory := Some (Fin (- 5))\<rparr>) =
     (Some (Failure BAD_REQUEST (Text limits_message) None), [])
   \<and> compile ascii default_state example_sandbox
        (react_request\<lparr>req_framework := StringValue (js ''svelte''), req_code := None,
           req_memory := Some (Fin 0)\<rparr>) =
     (Some (Failure BAD_REQUEST (Text (unsupported_message (js ''svelte''))) None), [])
   \<and> compile ascii default_state example_sandbox
        (react_request\<lparr>req_code := None, req_memory := Some (Fin 0)\<rparr>) =
     (Some (Failure BAD_REQUEST (Text code_message) None), [])"
proof -
  let ?t = "react_request\<lparr>req_timeout := Some NaN\<rparr>"
  let ?m = "react_request\<lparr>req_memory := Some (Fin (- 5))\<rparr>"
  let ?u = "react_request\<lparr>req_framework := StringValue (js ''svelte''), req_code := None,
           req_memory := Some (Fin 0)\<rparr>"
  let ?c = "react_request\<lparr>req_code := None, req_memory := Some (Fin 0)\<rparr>"
  have f: "FRAMEWORKS (toLowerCase (js ''react'')) \<noteq> None"
    unfolding lower_react by (simp add: FRAMEWORKS_def js_def)
  have g: "FRAMEWORKS (toLowerCase (js ''svelte'')) = None"
    by (simp add: toLowerCase_def lower_char_def FRAMEWORKS_def object_prototype_keys_def js_def)
  have c: "js ''export default 1'' \<noteq> []"
    by (simp add: js_def)
  have t: "req_framework ?t \<noteq> OtherValue" "invalid_override (req_timeout ?t)"
    by (simp_all add: react_request_def invalid_override_def not_positive_def)
  have m: "req_framework ?m \<noteq> OtherValue" "invalid_override (req_memory ?m)"
    "req_framework ?m = StringValue (js ''react'')"
    "\<not> not_positive (or_default (req_timeout ?m) (DEFAULT_COMPILE_TIMEOUT_MS default_state))"
    "req_code ?m = Some (js ''export default 1'')"
    by (simp_all add: react_request_def invalid_override_def not_positive_def or_default_def
        default_state_def)
  have u: "req_framework ?u \<noteq> OtherValue" "invalid_override (req_memory ?u)"
    "req_framework ?u = StringValue (js ''svelte'')"
    "\<not> not_positive (or_default (req_timeout ?u) (DEFAULT_COMPILE_TIMEOUT_MS default_state))"
    by (simp_all add: react_request_def invalid_override_def not_positive_def or_default_def
        default_state_def)
  have k: "req_framework ?c \<noteq> OtherValue" "invalid_override (req_memory ?c)"
    "req_framework ?c = StringValue (js ''react'')"
    "\<not> not_positive (or_default (req_timeout ?c) (DEFAULT_COMPILE_TIMEOUT_MS default_state))"
    "req_code ?c = None"
    by (simp_all add: react_request_def invalid_override_def not_positive_def or_default_def
        default_state_def)
  have 1: "compile ascii default_state example_sandbox ?t =
     (Some (Failure BAD_REQUEST (Text timeout_message) None), [])"
    using invalid_override_rejected [where req = ?t and decode = ascii and st = default_state
        and sb = example_sandbox, OF t(1)] t
    by blast
  have 2: "compile ascii default_state example_sandbox ?m =
     (Some (Failure BAD_REQUEST (Text limits_message) None), [])"
    using invalid_override_rejected [where req = ?m and s = "js ''react''" and st = default_state
        and code = "js ''export default 1''" and decode = ascii and sb = example_sandbox, OF m(1)]
      m f c
    by blast
  have "compile ascii default_state example_sandbox ?u =
     (Some (Failure BAD_REQUEST
        (Text (if not_positive (or_default (req_timeout ?u) (DEFAULT_COMPILE_TIMEOUT_MS default_state))
               then timeout_message
               else if FRAMEWORKS (toLowerCase (js ''svelte'')) = None
               then unsupported_message (js ''svelte'')
               else if req_code ?u = None \<or> req_code ?u = Some [] then code_message
               else limits_message))
        None), [])"
    using invalid_override_rejected [where req = ?u and s = "js ''svelte''" and st = default_state
        and decode = ascii and sb = example_sandbox, OF u(1)] u(2,3)
    by blast
  then have 3: "compile ascii default_state example_sandbox ?u =
     (Some (Failure BAD_REQUEST (Text (unsupported_message (js ''svelte''))) None), [])"
    by (simp only: u(4) g if_False if_True simp_thms)
  have "compile ascii default_state example_sandbox ?c =
     (Some (Failure BAD_REQUEST
        (Text (if not_positive (or_default (req_timeout ?c) (DEFAULT_COMPILE_TIMEOUT_MS default_state))
               then timeout_message
               else if FRAMEWORKS (toLowerCase (js ''react'')) = None
               then unsupported_message (js ''react'')
               else if req_code ?c = None \<or> req_code ?c = Some [] then code_message
               else limits_message))
        None), [])"
    using invalid_override_rejected [where req = ?c and s = "js ''react''" and st = default_state
        and decode = ascii and sb = example_sandbox, OF k(1)] k(2,3)
    by blast
  then have 4: "compile ascii default_state example_sandbox ?c =
     (Some (Failure BAD_REQUEST (Text code_message) None), [])"
    by (simp only: k(4) k(5) f if_False if_True simp_thms)
  from 1 2 3 4 show ?thesis by blast
qed

text \<open>
  The claim as the specification states it fails: with a timeout of 0 and a memory of
  0, the request is rejected with the message for the timeout, which does not name
  \<open>memory\<close>.
\<close>

theorem invalid_override_counterexample:
  "compile ascii default_state example_sandbox
      (react_request\<lparr>req_timeout := Some (Fin 0), req_memory := Some (Fin 0)\<rparr>) =
     (Some (Failure BAD_REQUEST (Text timeout_message) None), [])
   \<and> \<not> includes_str timeout_message (js ''memory'')"
proof -
  let ?r = "react_request\<lparr>req_timeout := Some (Fin 0), req_memory := Some (Fin 0)\<rparr>"
  have "req_framework ?r \<noteq> OtherValue" "invalid_override (req_timeout ?r)"
    by (simp_all add: react_request_def invalid_override_def not_positive_def)
  then have "validate default_state ?r = Rejected (Failure BAD_REQUEST (Text timeout_message) None)"
    by (rule validate_timeout)
  then show ?thesis
    using timeout_message_names by (simp add: compile_rejected)
qed

lemma unsupported_message_differs:
  "unsupported_message s \<noteq> timeout_message" "unsupported_message s \<noteq> code_message"
  "unsupported_message s \<noteq> limits_message"
  by (simp_all add: unsupported_message_def timeout_message_def code_message_def limits_message_def
      js_def)

lemma validate_unsupported:
  assumes "req_framework req = StringValue s"
  shows "validate st req = Rejected (Failure BAD_REQUEST (Text (unsupported_message s)) None) \<longleftrightarrow>
     \<not> not_positive (or_default (req_timeout req) (DEFAULT_COMPILE_TIMEOUT_MS st))
     \<and> FRAMEWORKS (toLowerCase s) = None"
  using assms unsupported_message_differs [of s]
  by (auto simp: validate_def Let_def split: option.splits)

lemma compile_unsupported:
  assumes "req_framework req = StringValue s"
  shows "fst (compile decode st sb req) = Some (Failure BAD_REQUEST (Text (unsupported_message s)) None)
     \<longleftrightarrow> validate st req = Rejected (Failure BAD_REQUEST (Text (unsupported_message s)) None)"
proof (cases "validate st req")
  case TypeErrorThrown
  then show ?thesis by (simp add: compile_def)
next
  case (Rejected resp)
  then show ?thesis by (simp add: compile_def)
next
  case (Accepted framework config code t limits)
  then show ?thesis
    by (auto simp: compile_def try_block_def catch_block_def Let_def INTERNAL_SERVER_ERROR_def
        BAD_REQUEST_def split: option.splits sum.splits)
qed

text \<open>
  Claim C10, as the code has it. For a request whose framework is a string, the
  profile is looked up under the lower-case form of the name: a name whose lower-case
  form is \<open>angular\<close>, \<open>react\<close> or \<open>vue\<close> resolves to that profile and is never rejected
  as unsupported. The request is rejected as unsupported exactly when its timeout has
  passed the check that comes first and the lookup finds nothing; for a lower-case
  name that is not a property name of \<open>Object.prototype\<close>, the lookup finds nothing
  exactly when the name is none of the three.
\<close>

theorem framework_lookup_ignores_case:
  assumes "req_framework req = StringValue s"
  shows "(toLowerCase s = js ''angular'' \<longrightarrow> FRAMEWORKS (toLowerCase s) = Some (Profile angular_profile))
       \<and> (toLowerCase s = js ''react'' \<longrightarrow> FRAMEWORKS (toLowerCase s) = Some (Profile react_profile))
       \<and> (toLowerCase s = js ''vue'' \<longrightarrow> FRAMEWORKS (toLowerCase s) = Some (Profile vue_profile))
       \<and> (toLowerCase s \<in> {js ''angular'', js ''react'', js ''vue''} \<longrightarrow>
            fst (compile decode st sb req) \<noteq>
              Some (Failure BAD_REQUEST (Text (unsupported_message s)) None))
       \<and> (fst (compile decode st sb req) = Some (Failure BAD_REQUEST (Text (unsupported_message s)) None)
            \<longleftrightarrow> \<not> not_positive (or_default (req_timeout req) (DEFAULT_COMPILE_TIMEOUT_MS st))
                \<and> FRAMEWORKS (toLowerCase s) = None)
       \<and> (toLowerCase s \<notin> set object_prototype_keys \<longrightarrow>
            (FRAMEWORKS (toLowerCase s) = None
              \<longleftrightarrow> toLowerCase s \<notin> {js ''angular'', js ''react'', js ''vue''}))"
proof -
  have d: "js ''react'' \<noteq> js ''angular''" "js ''vue'' \<noteq> js ''angular''" "js ''vue'' \<noteq> js ''react''"
    by (simp_all add: js_def)
  have 1: "toLowerCase s = js ''angular'' \<longrightarrow> FRAMEWORKS (toLowerCase s) = Some (Profile angular_profile)"
    by (simp add: FRAMEWORKS_def)
  have 2: "toLowerCase s = js ''react'' \<longrightarrow> FRAMEWORKS (toLowerCase s) = Some (Profile react_profile)"
    by (simp add: FRAMEWORKS_def d)
  have 3: "toLowerCase s = js ''vue'' \<longrightarrow> FRAMEWORKS (toLowerCase s) = Some (Profile vue_profile)"
    by (simp add: FRAMEWORKS_def d)
  have 5: "fst (compile decode st sb req) = Some (Failure BAD_REQUEST (Text (unsupported_message s)) None)
            \<longleftrightarrow> \<not> not_positive (or_default (req_timeout req) (DEFAULT_COMPILE_TIMEOUT_MS st))
                \<and> FRAMEWORKS (toLowerCase s) = None"
    using compile_unsupported [OF assms] validate_unsupported [OF assms] by simp
  have 4: "toLowerCase s \<in> {js ''angular'', js ''react'', js ''vue''} \<longrightarrow>
            fst (compile decode st sb req) \<noteq>
              Some (Failure BAD_REQUEST (Text (unsupported_message s)) None)"
    using 1 2 3 5 by auto
  have 6: "toLowerCase s \<notin> set object_prototype_keys \<longrightarrow>
            (FRAMEWORKS (toLowerCase s) = None
              \<longleftrightarrow> toLowerCase s \<notin> {js ''angular'', js ''react'', js ''vue''})"
    by (simp add: FRAMEWORKS_def)
  from 1 2 3 4 5 6 show ?thesis by blast
qed

lemma lower_examples:
  "toLowerCase (js ''REACT'') = js ''react''" "toLowerCase (js ''Angular'') = js ''angular''"
  "toLowerCase (js ''svelte'') = js ''svelte''" "toLowerCase (js ''constructor'') = js ''constructor''"
  by (simp_all add: toLowerCase_def lower_char_def js_def)

lemma svelte_unknown: "FRAMEWORKS (js ''svelte'') = None"
  by (simp add: FRAMEWORKS_def object_prototype_keys_def js_def)

theorem framework_lookup_ignores_case_witness:
  "FRAMEWORKS (toLowerCase (js ''REACT'')) = Some (Profile react_profile)
   \<and> FRAMEWORKS (toLowerCase (js ''Angular'')) = Some (Profile angular_profile)
   \<and> fst (compile ascii default_state example_sandbox
          (react_request\<lparr>req_framework := StringValue (js ''REACT'')\<rparr>)) \<noteq>
       Some (Failure BAD_REQUEST (Text (unsupported_message (js ''REACT''))) None)
   \<and> fst (compile ascii default_state example_sandbox
          (react_request\<lparr>req_framework := StringValue (js ''svelte'')\<rparr>)) =
       Some (Failure BAD_REQUEST (Text (unsupported_message (js ''svelte''))) None)"
proof -
  let ?R = "react_request\<lparr>req_framework := StringValue (js ''REACT'')\<rparr>"
  let ?A = "react_request\<lparr>req_framework := StringValue (js ''Angular'')\<rparr>"
  let ?S = "react_request\<lparr>req_framework := StringValue (js ''svelte'')\<rparr>"
  have r: "req_framework ?R = StringValue (js ''REACT'')"
    and a: "req_framework ?A = StringValue (js ''Angular'')"
    and s: "req_framework ?S = StringValue (js ''svelte'')"
    by simp_all
  have t: "\<not> not_positive (or_default (req_timeout ?S) (DEFAULT_COMPILE_TIMEOUT_MS default_state))"
    by (simp add: react_request_def default_state_def or_default_def not_positive_def)
  show ?thesis
    using framework_lookup_ignores_case [OF r, of ascii default_state example_sandbox]
      framework_lookup_ignores_case [OF a, of ascii default_state example_sandbox]
      framework_lookup_ignores_case [OF s, of ascii default_state example_sandbox]
      t svelte_unknown
    unfolding lower_examples by simp
qed

text \<open>
  The claim as the specification states it fails: \<open>svelte\<close> has no profile, but with a
  timeout of 0 the request is rejected for its timeout, not as an unsupported
  framework.
\<close>

theorem unsupported_framework_counterexample:
  "FRAMEWORKS (toLowerCase (js ''svelte'')) = None
   \<and> fst (compile ascii default_state example_sandbox
          (react_request\<lparr>req_framework := StringValue (js ''svelte''), req_timeout := Some (Fin 0)\<rparr>)) =
       Some (Failure BAD_REQUEST (Text timeout_message) None)
   \<and> timeout_message \<noteq> unsupported_message (js ''svelte'')"
proof -
  let ?r = "react_request\<lparr>req_framework := StringValue (js ''svelte''), req_timeout := Some (Fin 0)\<rparr>"
  have "req_framework ?r \<noteq> OtherValue" "invalid_override (req_timeout ?r)"
    by (simp_all add: invalid_override_def not_positive_def)
  then have "validate default_state ?r = Rejected (Failure BAD_REQUEST (Text timeout_message) None)"
    by (rule validate_timeout)
  then show ?thesis
    using unsupported_message_differs(1) [of "js ''svelte''"]
    unfolding lower_examples by (simp add: compile_rejected svelte_unknown)
qed

text \<open>
  A key that \<open>FRAMEWORKS\<close> inherits from \<open>Object.prototype\<close> passes the check of the
  framework although it has no profile: the job is created with no image.
\<close>

lemma inherited_key_accepted:
  "validate default_state (react_request\<lparr>req_framework := StringValue (js ''constructor'')\<rparr>) =
     Accepted (js ''constructor'') Inherited (js ''export default 1'') (Fin 60000)
       \<lparr>memory = Fin 2147483648, cpuPeriod = Fin 100000, cpuQuota = Fin 200000\<rparr>
   \<and> Image (createCompilationContainer cid code Inherited (js ''constructor'') limits) = None"
proof -
  have f: "FRAMEWORKS (js ''constructor'') = Some Inherited"
    by (simp add: FRAMEWORKS_def object_prototype_keys_def js_def)
  have c: "js ''export default 1'' \<noteq> []"
    by (simp add: js_def)
  show ?thesis
    by (simp add: validate_def default_state_def react_request_def lower_examples f c
        or_default_def not_positive_def createCompilationContainer_def field_def)
qed

text \<open>
  The profile is looked up under the lower-case name, but the sandbox specification
  compares the name as it was sent: a request for \<open>Angular\<close> gets the Angular profile,
  and its source is neither normalized nor are the old files of the template removed.
\<close>

lemma capitalized_name_not_normalized:
  "FRAMEWORKS (toLowerCase (js ''Angular'')) = Some (Profile angular_profile)
   \<and> finalCode (js ''Angular'') userCode = userCode
   \<and> cleanupCmd (js ''Angular'') = []"
  unfolding lower_examples
  by (simp add: FRAMEWORKS_def finalCode_def cleanupCmd_def js_def)

section \<open>Normalization\<close>

lemma replace_no_match: "\<not> test m s \<Longrightarrow> replace m r s = s"
  by (induction s) (auto split: option.splits)

lemma replace_all_no_match: "\<not> test m s \<Longrightarrow> replace_all m r s = s"
  by (induction s) (auto split: option.splits)

lemma first_match_None: "first_match m s = None \<longleftrightarrow> \<not> test m s"
  by (induction s) (auto split: option.splits)

lemma replace_first_match: "first_match m s = Some r \<Longrightarrow> replace m r s = s"
proof (induction s)
  case Nil
  then show ?case by (simp split: option.splits)
next
  case (Cons c cs)
  show ?case
  proof (cases "m (c # cs)")
    case None
    with Cons show ?thesis by simp
  next
    case (Some n)
    with Cons.prems have "r = take n (c # cs)" by simp
    with Some show ?thesis
      by (simp only: replace.simps option.case append_take_drop_id)
  qed
qed

lemma replace_canonical: "canonical m r s \<Longrightarrow> replace m r s = s"
  by (cases "first_match m s")
    (simp_all add: canonical_def replace_first_match replace_no_match first_match_None)

lemmas pattern_defs = selector_re_def class_re_def component_re_def templateUrl_re_def
  styleUrls_re_def styleUrl_re_def seq_def lit_def

lemma import_line_no_start:
  "test selector_re (import_line @ s) = test selector_re s"
  "test class_re (import_line @ s) = test class_re s"
  "test component_re (import_line @ s) = test component_re s"
  "test templateUrl_re (import_line @ s) = test templateUrl_re s"
  "test styleUrls_re (import_line @ s) = test styleUrls_re s"
  "test styleUrl_re (import_line @ s) = test styleUrl_re s"
  by (simp_all add: import_line_def js_def pattern_defs)

lemma import_line_included: "includes_str (import_line @ s) (js ''@angular/common'')"
  by (simp add: import_line_def js_def)

lemma normal_form_unchanged: "normal_form t \<Longrightarrow> prepareAngularCode t = t"
  by (auto simp: normal_form_def prepareAngularCode_def Let_def replace_canonical
      replace_no_match replace_all_no_match first_match_None)

lemma no_matches_normal_form:
  "no_pattern_matches t \<Longrightarrow> includes_str t (js ''@angular/common'') \<Longrightarrow> normal_form t"
  by (simp add: no_pattern_matches_def normal_form_def canonical_def first_match_None [symmetric])

lemma no_matches_import:
  assumes "no_pattern_matches s" and "\<not> includes_str s (js ''@angular/common'')"
  shows "prepareAngularCode s = import_line @ s"
  using assms
  by (simp add: prepareAngularCode_def no_pattern_matches_def replace_no_match
      replace_all_no_match import_line_no_start Let_def)

text \<open>
  Claim C7, as the code has it. \<open>prepareAngularCode\<close> leaves every text in normal form
  unchanged, so applying it twice gives the same text as applying it once whenever the
  first application gives a text in normal form. On an input in which none of the six
  patterns matches, it only puts the import line in front when \<open>@angular/common\<close> is
  missing, and applying it twice gives the same text as applying it once. Each rewrite
  leaves a text without a match of its pattern unchanged.
\<close>

theorem normalization_fixed_points:
  "(normal_form t \<longrightarrow> prepareAngularCode t = t)
   \<and> (normal_form (prepareAngularCode s) \<longrightarrow>
        prepareAngularCode (prepareAngularCode s) = prepareAngularCode s)
   \<and> (no_pattern_matches s \<longrightarrow>
        prepareAngularCode s = (if includes_str s (js ''@angular/common'') then s else import_line @ s)
        \<and> prepareAngularCode (prepareAngularCode s) = prepareAngularCode s)
   \<and> (\<not> test m u \<longrightarrow> replace m r u = u \<and> replace_all m r u = u)"
proof -
  have 3: "prepareAngularCode s = (if includes_str s (js ''@angular/common'') then s else import_line @ s)
      \<and> prepareAngularCode (prepareAngularCode s) = prepareAngularCode s"
    if n: "no_pattern_matches s"
  proof (cases "includes_str s (js ''@angular/common'')")
    case True
    with n have "prepareAngularCode s = s"
      by (intro normal_form_unchanged no_matches_normal_form)
    with True show ?thesis by simp
  next
    case False
    with n have p: "prepareAngularCode s = import_line @ s"
      by (rule no_matches_import)
    from n have "no_pattern_matches (import_line @ s)"
      by (simp add: no_pattern_matches_def import_line_no_start)
    then have "prepareAngularCode (import_line @ s) = import_line @ s"
      using import_line_included by (intro normal_form_unchanged no_matches_normal_form)
    with p False show ?thesis by simp
  qed
  have 1: "normal_form t \<longrightarrow> prepareAngularCode t = t"
    by (simp add: normal_form_unchanged)
  have 2: "normal_form (prepareAngularCode s) \<longrightarrow>
        prepareAngularCode (prepareAngularCode s) = prepareAngularCode s"
    by (simp add: normal_form_unchanged)
  have 4: "\<not> test m u \<longrightarrow> replace m r u = u \<and> replace_all m r u = u"
    by (simp add: replace_no_match replace_all_no_match)
  from 1 2 3 4 show ?thesis by blast
qed

lemma example_normalized:
  "prepareAngularCode example_component =
     import_line @ js ''@Component({\<newline>  standalone: true,\<newline>  selector: 'app-root',\<newline>  \<newline>  template: '<p>hi</p>'\<newline>})\<newline>export class AppComponent {}''"
  by code_simp

lemma example_normal_form: "normal_form (prepareAngularCode example_component)"
  by code_simp

lemma plain_text_no_matches:
  "no_pattern_matches (js ''const x = 1;'') \<and> \<not> includes_str (js ''const x = 1;'') (js ''@angular/common'')"
  by code_simp

text \<open>The example component is brought into normal form by one application; a text
  without any match only gets the import line.\<close>

theorem normalization_fixed_points_witness:
  "prepareAngularCode (prepareAngularCode example_component) = prepareAngularCode example_component
   \<and> prepareAngularCode (js ''const x = 1;'') = import_line @ js ''const x = 1;''
   \<and> prepareAngularCode (prepareAngularCode (js ''const x = 1;'')) = prepareAngularCode (js ''const x = 1;'')"
proof -
  have a: "prepareAngularCode (prepareAngularCode example_component) = prepareAngularCode example_component"
    using normalization_fixed_points [of "[]" example_component at_end "[]" "[]"] example_normal_form
    by blast
  from normalization_fixed_points [of "[]" "js ''const x = 1;''" at_end "[]" "[]"] plain_text_no_matches
  have b: "prepareAngularCode (js ''const x = 1;'') =
      (if includes_str (js ''const x = 1;'') (js ''@angular/common'') then js ''const x = 1;''
       else import_line @ js ''const x = 1;'')"
    and c: "prepareAngularCode (prepareAngularCode (js ''const x = 1;'')) = prepareAngularCode (js ''const x = 1;'')"
    by blast+
  from plain_text_no_matches b have "prepareAngularCode (js ''const x = 1;'') = import_line @ js ''const x = 1;''"
    by (simp only: if_False)
  with a c show ?thesis by blast
qed

text \<open>
  The claim as the specification states it fails: idempotence does not hold for every
  input. A reference to an external template whose path holds \<open>@angular/common\<close> keeps
  the import line away in the first application and is then stripped; the second
  application finds no \<open>@angular/common\<close> and adds the import line.
\<close>

theorem normalization_not_idempotent_counterexample:
  "prepareAngularCode (js ''templateUrl: '@angular/common/card.html','') = []
   \<and> prepareAngularCode (prepareAngularCode (js ''templateUrl: '@angular/common/card.html','')) = import_line
   \<and> import_line \<noteq> []"
proof -
  have 1: "prepareAngularCode (js ''templateUrl: '@angular/common/card.html','') = []"
    by code_simp
  have 2: "prepareAngularCode [] = import_line"
    by code_simp
  have 3: "import_line \<noteq> []"
    by (simp add: import_line_def js_def)
  from 1 2 3 show ?thesis by simp
qed

text \<open>
  Stripping a reference can also join the text around it into a new reference, which
  only the next application strips.
\<close>

lemma nested_reference_survives:
  "prepareAngularCode (import_line @ js ''templateUrltemplateUrl:a,:b,'') = import_line @ js ''templateUrl:b,''
   \<and> prepareAngularCode (import_line @ js ''templateUrl:b,'') = import_line"
  by code_simp

end
